theory Spec2Isabelle
  imports Main
begin

section \<open>Values, records and the document\<close>

text \<open>
  The server (\<^verbatim>\<open>server.js\<close>) keeps one JSON document \<^verbatim>\<open>{clients, photos}\<close> in a
  file and a directory of uploaded blobs. Every handler reads the whole document,
  changes it in memory and writes the whole document back.

  Fields that the code only copies or tests for truthiness hold a JavaScript value.
  \<open>JUndefined\<close> stands for a field that is absent. Numbers are integers; strings are
  sequences of code units below 256.
\<close>

datatype jsval =
    JUndefined
  | JNull
  | JBool bool
  | JNum int
  | JStr string
  | JArr "jsval list"
  | JObj "(string \<times> jsval) list"

text \<open>The coercion behind \<^verbatim>\<open>!v\<close>: \<open>truthy v\<close> is what \<^verbatim>\<open>!!v\<close> yields.\<close>

fun truthy :: "jsval \<Rightarrow> bool" where
  "truthy JUndefined = False"
| "truthy JNull = False"
| "truthy (JBool b) = b"
| "truthy (JNum n) = (n \<noteq> 0)"
| "truthy (JStr s) = (s \<noteq> [])"
| "truthy (JArr xs) = True"
| "truthy (JObj kvs) = True"

text \<open>
  Ids are the numbers the code computes with (\<^verbatim>\<open>Math.max\<close>, \<^verbatim>\<open>+ 1\<close>, \<^verbatim>\<open>===\<close>): integers
  that are IEEE doubles, with the arithmetic of doubles (\<open>js_add\<close> below). A photo's
  \<open>clientId\<close> is the result of \<^verbatim>\<open>parseInt\<close>, which may be \<^verbatim>\<open>NaN\<close> or an infinity;
  \<^verbatim>\<open>JSON.stringify\<close> writes each of these as \<^verbatim>\<open>null\<close>, both into the file and into the
  response. \<open>None\<close> stands for such a value: no finite number in memory, \<^verbatim>\<open>null\<close> once
  serialised. The ids of a loaded document are doubles, as \<^verbatim>\<open>JSON.parse\<close> makes them.
\<close>

record client =
  client_id :: int
  client_name :: jsval
  email :: jsval
  phone :: jsval

record photo =
  photo_id :: int
  clientId :: "int option"
  photo_name :: jsval
  url :: jsval
  photo_size :: jsval
  uploaded :: jsval
  favorite :: jsval

record document =
  clients :: "client list"
  photos :: "photo list"

text \<open>A file as multer hands it to the handler (\<^verbatim>\<open>req.files[i]\<close>).\<close>

record multer_file =
  originalname :: string
  filename :: string
  fsize :: int

section \<open>The file system\<close>

text \<open>
  The state of \<^verbatim>\<open>data/db.json\<close>: absent, holding text that parses to a document,
  holding text that \<^verbatim>\<open>JSON.parse\<close> rejects, or not readable for another reason
  (a permission error, say). \<open>uploads\<close> is the set of file names in \<^verbatim>\<open>data/uploads\<close>;
  \<open>writable\<close> tells whether \<^verbatim>\<open>fs.writeFile\<close> on the document file succeeds.
\<close>

datatype dbfile = Missing | Stored document | Malformed | Denied

record fs =
  db :: dbfile
  uploads :: "string set"
  writable :: bool

datatype error = Errno string | SyntaxError

fun code :: "error \<Rightarrow> string option" where
  "code (Errno c) = Some c"
| "code SyntaxError = None"

text \<open>\<^verbatim>\<open>fs.readFile(dbPath, 'utf8')\<close> followed by \<^verbatim>\<open>JSON.parse\<close>.\<close>

definition readFile_parse :: "fs \<Rightarrow> error + document" where
  "readFile_parse s =
     (case db s of
        Stored d \<Rightarrow> Inr d
      | Missing \<Rightarrow> Inl (Errno ''ENOENT'')
      | Malformed \<Rightarrow> Inl SyntaxError
      | Denied \<Rightarrow> Inl (Errno ''EACCES''))"

definition default_document :: document where
  "default_document = \<lparr>clients = [], photos = []\<rparr>"

definition readDb :: "fs \<Rightarrow> (error + document) \<times> fs" where
  "readDb s =
     (case readFile_parse s of
        Inr d \<Rightarrow> (Inr d, s)
      | Inl e \<Rightarrow>
          if code e = Some ''ENOENT'' then (Inr default_document, s)
          else (Inl e, s))"

definition writeDb :: "document \<Rightarrow> fs \<Rightarrow> (error + unit) \<times> fs" where
  "writeDb data s =
     (if writable s then (Inr (), s\<lparr>db := Stored data\<rparr>)
      else (Inl (Errno ''EACCES''), s))"

text \<open>
  \<^verbatim>\<open>path.basename\<close> (POSIX): trailing slashes are dropped, then everything up to the
  last slash.
\<close>

definition basename :: "string \<Rightarrow> string" where
  "basename p =
     rev (takeWhile (\<lambda>c. c \<noteq> CHR ''/'') (dropWhile (\<lambda>c. c = CHR ''/'') (rev p)))"

text \<open>
  \<^verbatim>\<open>fs.unlink(path.join(uploadsPath, b))\<close> for a base name \<open>b\<close>. The names \<open>''''\<close>,
  \<open>''.''\<close> and \<open>''..''\<close> join to a directory, which \<^verbatim>\<open>unlink\<close> refuses.
\<close>

definition unlink :: "string \<Rightarrow> fs \<Rightarrow> (error + unit) \<times> fs" where
  "unlink b s =
     (if b = '''' \<or> b = ''.'' \<or> b = ''..'' then (Inl (Errno ''EISDIR''), s)
      else if b \<in> uploads s then (Inr (), s\<lparr>uploads := uploads s - {b}\<rparr>)
      else (Inl (Errno ''ENOENT''), s))"

text \<open>
  The guarded unlink of both delete handlers:
  \<^verbatim>\<open>try { await fs.unlink(path.join(uploadsPath, path.basename(photo.url))) }
  catch (err) { console.error(...) }\<close>.
  \<^verbatim>\<open>path.basename\<close> throws a \<^verbatim>\<open>TypeError\<close> on a value that is not a string; the
  \<^verbatim>\<open>catch\<close> swallows that as well.
\<close>

definition unlink_photo :: "photo \<Rightarrow> fs \<Rightarrow> fs" where
  "unlink_photo p s =
     (case url p of
        JStr u \<Rightarrow> snd (unlink (basename u) s)
      | _ \<Rightarrow> s)"

text \<open>
  The multer middleware \<^verbatim>\<open>upload.array('photos')\<close> runs before the handler and has
  written every file of the request into the uploads directory by then. A request
  that is not multipart has no \<^verbatim>\<open>req.files\<close>.
\<close>

definition upload_array :: "multer_file list option \<Rightarrow> fs \<Rightarrow> fs" where
  "upload_array files s =
     (case files of
        None \<Rightarrow> s
      | Some fl \<Rightarrow> s\<lparr>uploads := uploads s \<union> set (map filename fl)\<rparr>)"

section \<open>Numbers\<close>

text \<open>
  JavaScript numbers are IEEE doubles. An integer below \<open>2^53\<close> in magnitude is a
  double; a larger one is a double only if it is a 53-bit integer times a power of two.
  The result of an operation is the exact result rounded to the nearest double, a tie
  going to the one with the even 53-bit integer.

  \<open>mantissa_shift a\<close> is the number of low bits that \<open>a \<ge> 0\<close> has beyond 53, and
  \<open>round_magnitude a\<close> is the double nearest to \<open>a \<ge> 0\<close>, were there no largest double.
\<close>

function mantissa_shift :: "int \<Rightarrow> nat" where
  "mantissa_shift a = (if a < 2 ^ 53 then 0 else Suc (mantissa_shift (a div 2)))"
  by pat_completeness auto
termination
  by (relation "measure nat") auto

declare mantissa_shift.simps [simp del]

definition round_magnitude :: "int \<Rightarrow> int" where
  "round_magnitude a =
     (let e = mantissa_shift a; q = a div 2 ^ e; r = a mod 2 ^ e
      in if 2 * r < 2 ^ e \<or> (2 * r = 2 ^ e \<and> even q) then q * 2 ^ e
         else (q + 1) * 2 ^ e)"

definition nearest_double :: "int \<Rightarrow> int" where
  "nearest_double x = (if x < 0 then - round_magnitude (- x) else round_magnitude x)"

text \<open>
  The number that an exact integer becomes. From \<open>2^1024\<close> on the rounded magnitude is
  past the largest double and the number is an infinity: \<open>None\<close>.
\<close>

definition number_of_integer :: "int \<Rightarrow> int option" where
  "number_of_integer x =
     (if 2 ^ 1024 \<le> \<bar>nearest_double x\<bar> then None else Some (nearest_double x))"

text \<open>
  \<^verbatim>\<open>a + b\<close> on numbers that are integers. The handlers add 1 or an array index to an
  id; that moves no double past the largest one, so the sum is never an infinity.
\<close>

definition js_add :: "int \<Rightarrow> int \<Rightarrow> int" where
  "js_add a b = nearest_double (a + b)"

section \<open>Library functions\<close>

text \<open>
  \<^verbatim>\<open>parseInt(s)\<close> with no radix: leading white space is skipped, a sign is read, a
  prefix \<^verbatim>\<open>0x\<close> or \<^verbatim>\<open>0X\<close> selects radix 16 (otherwise 10), the longest run of digits
  is read, and with no digit at all the result is \<^verbatim>\<open>NaN\<close>. Otherwise the result is the
  number that the integer read becomes: the nearest double, or an infinity. \<open>None\<close> is
  \<^verbatim>\<open>NaN\<close> or an infinity.
\<close>

definition is_space :: "char \<Rightarrow> bool" where
  "is_space c = (of_char c \<in> {9, 10, 11, 12, 13, 32, 160 :: nat})"

definition digit_val :: "char \<Rightarrow> nat option" where
  "digit_val c =
     (let n = (of_char c :: nat) in
      if 48 \<le> n \<and> n \<le> 57 then Some (n - 48)
      else if 97 \<le> n \<and> n \<le> 122 then Some (n - 87)
      else if 65 \<le> n \<and> n \<le> 90 then Some (n - 55)
      else None)"

definition radix_digit :: "nat \<Rightarrow> char \<Rightarrow> nat option" where
  "radix_digit r c =
     (case digit_val c of
        None \<Rightarrow> None
      | Some v \<Rightarrow> if v < r then Some v else None)"

definition digits_value :: "nat \<Rightarrow> string \<Rightarrow> int" where
  "digits_value r z =
     foldl (\<lambda>a c. a * int r + (case radix_digit r c of Some v \<Rightarrow> int v | None \<Rightarrow> 0)) 0 z"

definition parseInt :: "string \<Rightarrow> int option" where
  "parseInt inputString =
     (let S = dropWhile is_space inputString;
          negative = (case S of c # _ \<Rightarrow> c = CHR ''-'' | [] \<Rightarrow> False);
          S1 = (case S of c # cs \<Rightarrow> if c = CHR ''+'' \<or> c = CHR ''-'' then cs else S
                | [] \<Rightarrow> S);
          hex = (take 2 S1 = ''0x'' \<or> take 2 S1 = ''0X'');
          R = (if hex then 16 else 10);
          S2 = (if hex then drop 2 S1 else S1);
          Z = takeWhile (\<lambda>c. radix_digit R c \<noteq> None) S2
      in if Z = [] then None
         else if negative then number_of_integer (- digits_value R Z)
         else number_of_integer (digits_value R Z))"

text \<open>\<^verbatim>\<open>Array.prototype.findIndex\<close>; \<open>None\<close> stands for \<^verbatim>\<open>-1\<close>.\<close>

fun findIndex :: "('a \<Rightarrow> bool) \<Rightarrow> 'a list \<Rightarrow> nat option" where
  "findIndex P [] = None"
| "findIndex P (x # xs) =
     (if P x then Some 0 else map_option Suc (findIndex P xs))"

text \<open>\<^verbatim>\<open>xs.splice(i, 1)\<close>: the list without its element at index \<open>i\<close>.\<close>

definition splice1 :: "nat \<Rightarrow> 'a list \<Rightarrow> 'a list" where
  "splice1 i xs = take i xs @ drop (Suc i) xs"

text \<open>
  \<^verbatim>\<open>xs.find(P)\<close> is \<^const>\<open>find\<close>. It returns the array's own object, so an assignment
  to a field of the result changes the first element of the array that satisfies
  \<open>P\<close>; \<open>assign_found\<close> is the array after such an assignment.
\<close>

fun assign_found :: "('a \<Rightarrow> bool) \<Rightarrow> ('a \<Rightarrow> 'a) \<Rightarrow> 'a list \<Rightarrow> 'a list" where
  "assign_found P f [] = []"
| "assign_found P f (x # xs) =
     (if P x then f x # xs else x # assign_found P f xs)"

text \<open>
  \<^verbatim>\<open>a === b\<close> between a stored \<open>clientId\<close> (\<open>None\<close> is \<^verbatim>\<open>null\<close>) and a parsed
  number (\<open>None\<close> is \<^verbatim>\<open>NaN\<close> or an infinity): \<^verbatim>\<open>null\<close> equals none of these, and none of
  these equals a finite number.
\<close>

definition strict_eq :: "int option \<Rightarrow> int option \<Rightarrow> bool" where
  "strict_eq a b = (case (a, b) of (Some m, Some n) \<Rightarrow> m = n | _ \<Rightarrow> False)"

section \<open>Responses\<close>

text \<open>
  A response is a status code and a JSON body. \<open>Failure m e\<close> is the body
  \<^verbatim>\<open>{ message: m, error: e }\<close> of a 500.
\<close>

datatype body =
    Message string
  | Failure string error
  | Data document
  | AClient client
  | Photos "photo list"
  | APhoto photo

type_synonym response = "nat \<times> body"

section \<open>The handlers\<close>

text \<open>\<^verbatim>\<open>GET /api/data\<close>\<close>

definition get_data :: "fs \<Rightarrow> response \<times> fs" where
  "get_data s =
     (case readDb s of
        (Inl e, s1) \<Rightarrow> ((500, Failure ''Error reading data'' e), s1)
      | (Inr d, s1) \<Rightarrow> ((200, Data d), s1))"

text \<open>\<^verbatim>\<open>POST /api/clients\<close> with body \<^verbatim>\<open>{ name, email, phone }\<close>\<close>

definition new_client_id :: "document \<Rightarrow> int" where
  "new_client_id d =
     (if length (clients d) > 0 then js_add (Max (set (map client_id (clients d)))) 1
      else 1)"

definition post_clients :: "jsval \<Rightarrow> jsval \<Rightarrow> jsval \<Rightarrow> fs \<Rightarrow> response \<times> fs" where
  "post_clients name email' phone' s =
     (if \<not> truthy name then ((400, Message ''Client name is required''), s)
      else
        case readDb s of
          (Inl e, s1) \<Rightarrow> ((500, Failure ''Error creating client'' e), s1)
        | (Inr d, s1) \<Rightarrow>
            let newId = new_client_id d;
                newClient = \<lparr>client_id = newId, client_name = name,
                             email = email', phone = phone'\<rparr>;
                d' = d\<lparr>clients := clients d @ [newClient]\<rparr>
            in (case writeDb d' s1 of
                  (Inl e, s2) \<Rightarrow> ((500, Failure ''Error creating client'' e), s2)
                | (Inr _, s2) \<Rightarrow> ((201, AClient newClient), s2)))"

text \<open>\<^verbatim>\<open>DELETE /api/clients/:id\<close>\<close>

definition delete_clients :: "string \<Rightarrow> fs \<Rightarrow> response \<times> fs" where
  "delete_clients id' s =
     (let cid = parseInt id' in
      case readDb s of
        (Inl e, s1) \<Rightarrow> ((500, Failure ''Error deleting client'' e), s1)
      | (Inr d, s1) \<Rightarrow>
          (case findIndex (\<lambda>c. Some (client_id c) = cid) (clients d) of
             None \<Rightarrow> ((404, Message ''Client not found''), s1)
           | Some clientIndex \<Rightarrow>
               let cs = splice1 clientIndex (clients d);
                   photosToDelete = filter (\<lambda>p. strict_eq (clientId p) cid) (photos d);
                   s2 = fold unlink_photo photosToDelete s1;
                   d' = \<lparr>clients = cs,
                         photos = filter (\<lambda>p. \<not> strict_eq (clientId p) cid) (photos d)\<rparr>
               in (case writeDb d' s2 of
                     (Inl e, s3) \<Rightarrow> ((500, Failure ''Error deleting client'' e), s3)
                   | (Inr _, s3) \<Rightarrow>
                       ((200, Message ''Client and associated photos deleted''), s3))))"

text \<open>
  \<^verbatim>\<open>POST /api/photos\<close> with the form field \<^verbatim>\<open>clientId\<close> and the files of field
  \<^verbatim>\<open>photos\<close>. \<open>now i\<close> is what \<^verbatim>\<open>new Date().toISOString()\<close> returns when the record
  of file \<open>i\<close> is built.
\<close>

definition max_photo_id :: "document \<Rightarrow> int" where
  "max_photo_id d =
     (if length (photos d) > 0 then Max (set (map photo_id (photos d))) else 0)"

definition new_photo :: "int \<Rightarrow> string \<Rightarrow> (nat \<Rightarrow> string) \<Rightarrow> nat \<times> multer_file \<Rightarrow> photo" where
  "new_photo maxId cid now = (\<lambda>(i, f).
     \<lparr>photo_id = js_add (js_add maxId (int i)) 1,
      clientId = parseInt cid,
      photo_name = JStr (originalname f),
      url = JStr (''/uploads/'' @ filename f),
      photo_size = JNum (fsize f),
      uploaded = JStr (now i),
      favorite = JBool False\<rparr>)"

definition post_photos ::
  "string option \<Rightarrow> multer_file list option \<Rightarrow> (nat \<Rightarrow> string) \<Rightarrow> fs \<Rightarrow> response \<times> fs" where
  "post_photos cid files now s0 =
     (let s = upload_array files s0;
          bad = ((400, Message ''Client ID and files are required''), s)
      in case (cid, files) of
           (Some c, Some fl) \<Rightarrow>
             if c = [] \<or> length fl = 0 then bad
             else
               (case readDb s of
                  (Inl e, s1) \<Rightarrow> ((500, Failure ''Error uploading photos'' e), s1)
                | (Inr d, s1) \<Rightarrow>
                    let maxId = max_photo_id d;
                        newPhotos = map (new_photo maxId c now) (enumerate 0 fl);
                        d' = d\<lparr>photos := photos d @ newPhotos\<rparr>
                    in (case writeDb d' s1 of
                          (Inl e, s2) \<Rightarrow> ((500, Failure ''Error uploading photos'' e), s2)
                        | (Inr _, s2) \<Rightarrow> ((201, Photos newPhotos), s2)))
         | _ \<Rightarrow> bad)"

text \<open>\<^verbatim>\<open>DELETE /api/photos/:id\<close>\<close>

definition delete_photos :: "string \<Rightarrow> fs \<Rightarrow> response \<times> fs" where
  "delete_photos id' s =
     (let photoId = parseInt id' in
      case readDb s of
        (Inl e, s1) \<Rightarrow> ((500, Failure ''Error deleting photo'' e), s1)
      | (Inr d, s1) \<Rightarrow>
          (case findIndex (\<lambda>p. Some (photo_id p) = photoId) (photos d) of
             None \<Rightarrow> ((404, Message ''Photo not found''), s1)
           | Some photoIndex \<Rightarrow>
               let ph = photos d ! photoIndex;
                   d' = d\<lparr>photos := splice1 photoIndex (photos d)\<rparr>;
                   s2 = unlink_photo ph s1
               in (case writeDb d' s2 of
                     (Inl e, s3) \<Rightarrow> ((500, Failure ''Error deleting photo'' e), s3)
                   | (Inr _, s3) \<Rightarrow> ((200, Message ''Photo deleted''), s3))))"

text \<open>\<^verbatim>\<open>PUT /api/photos/:id/favorite\<close>\<close>

definition toggle :: "photo \<Rightarrow> photo" where
  "toggle p = p\<lparr>favorite := JBool (\<not> truthy (favorite p))\<rparr>"

definition put_favorite :: "string \<Rightarrow> fs \<Rightarrow> response \<times> fs" where
  "put_favorite id' s =
     (let photoId = parseInt id' in
      case readDb s of
        (Inl e, s1) \<Rightarrow> ((500, Failure ''Error updating photo'' e), s1)
      | (Inr d, s1) \<Rightarrow>
          (case find (\<lambda>p. Some (photo_id p) = photoId) (photos d) of
             None \<Rightarrow> ((404, Message ''Photo not found''), s1)
           | Some ph \<Rightarrow>
               let d' = d\<lparr>photos :=
                           assign_found (\<lambda>p. Some (photo_id p) = photoId) toggle (photos d)\<rparr>
               in (case writeDb d' s1 of
                     (Inl e, s2) \<Rightarrow> ((500, Failure ''Error updating photo'' e), s2)
                   | (Inr _, s2) \<Rightarrow> ((200, APhoto (toggle ph)), s2))))"

section \<open>Requests in sequence\<close>

datatype operation =
    GetData
  | CreateClient jsval jsval jsval
  | DeleteClient string
  | UploadPhotos "string option" "multer_file list option" "nat \<Rightarrow> string"
  | DeletePhoto string
  | ToggleFavorite string

fun handle :: "operation \<Rightarrow> fs \<Rightarrow> response \<times> fs" where
  "handle GetData s = get_data s"
| "handle (CreateClient name e p) s = post_clients name e p s"
| "handle (DeleteClient i) s = delete_clients i s"
| "handle (UploadPhotos c fl now) s = post_photos c fl now s"
| "handle (DeletePhoto i) s = delete_photos i s"
| "handle (ToggleFavorite i) s = put_favorite i s"

text \<open>Requests served one after the other, none overlapping: the responses in order.\<close>

fun serve :: "operation list \<Rightarrow> fs \<Rightarrow> response list \<times> fs" where
  "serve [] s = ([], s)"
| "serve (op # ops) s =
     (let (r, s1) = handle op s;
          (rs, s2) = serve ops s1
      in (r # rs, s2))"

section \<open>Unique ids\<close>

text \<open>No two clients share an id, and no two photos do.\<close>

definition unique_ids :: "document \<Rightarrow> bool" where
  "unique_ids d \<longleftrightarrow>
     distinct (map client_id (clients d)) \<and> distinct (map photo_id (photos d))"

text \<open>Every id of the document is at least \<open>-2^53\<close> and at most \<open>B\<close>.\<close>

definition bounded_ids :: "int \<Rightarrow> document \<Rightarrow> bool" where
  "bounded_ids B d \<longleftrightarrow>
     (\<forall>n \<in> set (map client_id (clients d)) \<union> set (map photo_id (photos d)).
        - (2 ^ 53) \<le> n \<and> n \<le> B)"

text \<open>The number of records a request asks to create: one client, or one photo per file.\<close>

fun records_requested :: "operation \<Rightarrow> nat" where
  "records_requested (CreateClient name e p) = 1"
| "records_requested (UploadPhotos c (Some fl) now) = length fl"
| "records_requested _ = 0"

section \<open>Sample data\<close>

definition ann :: client where
  "ann = \<lparr>client_id = 1, client_name = JStr ''Ann'', email = JStr ''ann@example.org'',
          phone = JUndefined\<rparr>"

definition bob :: client where
  "bob = \<lparr>client_id = 2, client_name = JStr ''Bob'', email = JUndefined, phone = JUndefined\<rparr>"

text \<open>A second client under Ann's id, as two overlapping creations can leave behind.\<close>

definition bea :: client where
  "bea = \<lparr>client_id = 1, client_name = JStr ''Bea'', email = JUndefined, phone = JUndefined\<rparr>"

definition picture :: "int \<Rightarrow> int option \<Rightarrow> string \<Rightarrow> jsval \<Rightarrow> photo" where
  "picture i c f fav =
     \<lparr>photo_id = i, clientId = c, photo_name = JStr f, url = JStr (''/uploads/'' @ f),
      photo_size = JNum 1024, uploaded = JStr ''2024-05-01T10:00:00.000Z'', favorite = fav\<rparr>"

definition disk :: "document \<Rightarrow> fs" where
  "disk d = \<lparr>db = Stored d, uploads = {}, writable = True\<rparr>"

definition fresh :: fs where
  "fresh = \<lparr>db = Missing, uploads = {}, writable = True\<rparr>"

definition jpg :: "string \<Rightarrow> multer_file" where
  "jpg f = \<lparr>originalname = f, filename = ''photos-'' @ f, fsize = 1024\<rparr>"

definition noon :: "nat \<Rightarrow> string" where
  "noon i = ''2024-05-01T12:00:00.000Z''"

definition album :: document where
  "album =
     \<lparr>clients = [ann, bob],
      photos = [picture 1 (Some 1) ''a.jpg'' (JBool False),
                picture 2 (Some 2) ''b.jpg'' (JBool False),
                picture 3 (Some 1) ''c.jpg'' (JBool True)]\<rparr>"

text \<open>A client whose id is \<open>2^53\<close>, the least integer whose successor is not a double.\<close>

definition veteran :: client where
  "veteran = \<lparr>client_id = 9007199254740992, client_name = JStr ''Vera'',
              email = JUndefined, phone = JUndefined\<rparr>"

text \<open>Two photos under one id, as two overlapping uploads can leave behind.\<close>

definition twins :: document where
  "twins =
     \<lparr>clients = [ann],
      photos = [picture 1 (Some 1) ''a.jpg'' (JBool False),
                picture 1 (Some 1) ''b.jpg'' (JBool False)]\<rparr>"

section \<open>Facts about the document store\<close>

lemma readDb_pair: "readDb s = (fst (readDb s), s)"
  by (simp add: readDb_def split: sum.splits)

lemma readDb_Inr: "fst (readDb s) = Inr d \<Longrightarrow> readDb s = (Inr d, s)"
  using readDb_pair [of s] by simp

lemma readDb_Inl: "fst (readDb s) = Inl e \<Longrightarrow> readDb s = (Inl e, s)"
  using readDb_pair [of s] by simp

lemma readDb_result:
  "fst (readDb s) =
     (case db s of Stored d \<Rightarrow> Inr d | Missing \<Rightarrow> Inr default_document
      | Malformed \<Rightarrow> Inl SyntaxError | Denied \<Rightarrow> Inl (Errno ''EACCES''))"
  by (simp add: readDb_def readFile_parse_def split: dbfile.splits)

lemma readDb_written: "fst (readDb (s\<lparr>db := Stored d\<rparr>)) = Inr d"
  by (simp add: readDb_result)

lemma writeDb_ok: "writable s \<Longrightarrow> writeDb d s = (Inr (), s\<lparr>db := Stored d\<rparr>)"
  by (simp add: writeDb_def)

lemma upload_array_db [simp]: "db (upload_array files s) = db s"
  by (simp add: upload_array_def split: option.splits)

lemma upload_array_writable [simp]: "writable (upload_array files s) = writable s"
  by (simp add: upload_array_def split: option.splits)

lemma readDb_upload_array [simp]: "fst (readDb (upload_array files s)) = fst (readDb s)"
  by (simp add: readDb_result)

lemma readDb_db: "db s = db t \<Longrightarrow> fst (readDb s) = fst (readDb t)"
  by (simp add: readDb_result)

section \<open>Facts about numbers\<close>

lemma mantissa_shift_small: "a < 2 ^ 53 \<Longrightarrow> mantissa_shift a = 0"
  by (subst mantissa_shift.simps) simp

lemma round_magnitude_exact: "0 \<le> a \<Longrightarrow> a \<le> 2 ^ 53 \<Longrightarrow> round_magnitude a = a"
proof (cases "a < 2 ^ 53")
  case True
  then show ?thesis by (simp add: round_magnitude_def mantissa_shift_small)
next
  case False
  assume "a \<le> 2 ^ 53"
  with False have a: "a = 2 ^ 53" by simp
  have "round_magnitude 9007199254740992 = 9007199254740992" by code_simp
  with a show ?thesis by simp
qed

lemma nearest_double_exact: "- (2 ^ 53) \<le> x \<Longrightarrow> x \<le> 2 ^ 53 \<Longrightarrow> nearest_double x = x"
  by (simp add: nearest_double_def round_magnitude_exact)

lemma js_add_exact:
  "- (2 ^ 53) \<le> a + b \<Longrightarrow> a + b \<le> 2 ^ 53 \<Longrightarrow> js_add a b = a + b"
  by (simp add: js_add_def nearest_double_exact)

lemma js_add_tie: "js_add 9007199254740992 1 = 9007199254740992"
  by code_simp

lemma js_add_zero: "js_add 9007199254740992 0 = 9007199254740992"
  by code_simp

section \<open>Facts about the library functions\<close>

lemma findIndex_None: "findIndex P xs = None \<longleftrightarrow> (\<forall>x \<in> set xs. \<not> P x)"
  by (induction xs) auto

lemma findIndex_first:
  "i < length xs \<Longrightarrow> P (xs ! i) \<Longrightarrow> \<forall>j<i. \<not> P (xs ! j) \<Longrightarrow> findIndex P xs = Some i"
proof (induction xs arbitrary: i)
  case Nil
  then show ?case by simp
next
  case (Cons x xs)
  show ?case
  proof (cases i)
    case 0
    with Cons.prems show ?thesis by simp
  next
    case (Suc k)
    have "\<not> P x" using Cons.prems(3) Suc by auto
    moreover have "\<forall>j<k. \<not> P (xs ! j)"
    proof (intro allI impI)
      fix j assume "j < k"
      then have "Suc j < i" using Suc by simp
      with Cons.prems(3) have "\<not> P ((x # xs) ! Suc j)" by blast
      then show "\<not> P (xs ! j)" by simp
    qed
    then have "findIndex P xs = Some k"
      using Cons.IH [of k] Cons.prems(1,2) Suc by simp
    ultimately show ?thesis using Suc by simp
  qed
qed

lemma findIndex_Some:
  "findIndex P xs = Some i \<Longrightarrow> i < length xs \<and> P (xs ! i) \<and> (\<forall>j<i. \<not> P (xs ! j))"
proof (induction xs arbitrary: i)
  case Nil
  then show ?case by simp
next
  case (Cons x xs)
  show ?case
  proof (cases "P x")
    case True
    with Cons.prems show ?thesis by simp
  next
    case False
    with Cons.prems obtain k where k: "findIndex P xs = Some k" "i = Suc k" by auto
    from Cons.IH [OF k(1)] False k(2) show ?thesis
      by (auto simp: less_Suc_eq_0_disj)
  qed
qed

lemma strict_eq_Some [simp]: "strict_eq a (Some n) = (a = Some n)"
  by (cases a) (auto simp: strict_eq_def)

lemma strict_eq_None [simp]: "strict_eq None b = False" "strict_eq a None = False"
  by (auto simp: strict_eq_def split: option.splits)

lemma unlink_photo_db [simp]: "db (unlink_photo p s) = db s"
  by (simp add: unlink_photo_def unlink_def split: jsval.splits)

lemma unlink_photo_writable [simp]: "writable (unlink_photo p s) = writable s"
  by (simp add: unlink_photo_def unlink_def split: jsval.splits)

lemma unlink_photos_db [simp]: "db (fold unlink_photo ps s) = db s"
  by (induction ps arbitrary: s) auto

lemma unlink_photos_writable [simp]: "writable (fold unlink_photo ps s) = writable s"
  by (induction ps arbitrary: s) auto

lemma distinct_map_splice1:
  "distinct (map f xs) \<Longrightarrow> distinct (map f (splice1 i xs))"
proof -
  assume d: "distinct (map f xs)"
  have "map f xs = map f (take i xs) @ map f (drop i xs)"
    by (metis append_take_drop_id map_append)
  with d have a: "distinct (map f (take i xs))" "distinct (map f (drop i xs))"
    "set (map f (take i xs)) \<inter> set (map f (drop i xs)) = {}"
    by (metis distinct_append)+
  have sub: "set (drop (Suc i) xs) \<subseteq> set (drop i xs)"
    by (metis drop_Suc set_drop_subset tl_drop drop_drop plus_1_eq_Suc)
  have "distinct (map f (drop (Suc i) xs))"
    using d by (metis distinct_drop drop_map)
  moreover have "set (map f (take i xs)) \<inter> set (map f (drop (Suc i) xs)) = {}"
    using a(3) sub by auto
  ultimately show ?thesis using a(1) by (simp add: splice1_def)
qed

lemma map_assign_found:
  "(\<And>x. g (f x) = g x) \<Longrightarrow> map g (assign_found P f xs) = map g xs"
  by (induction xs) auto

lemma assign_found_first:
  "j < length xs \<Longrightarrow> P (xs ! j) \<Longrightarrow> \<forall>k<j. \<not> P (xs ! k) \<Longrightarrow>
   assign_found P f xs = xs[j := f (xs ! j)]"
proof (induction xs arbitrary: j)
  case Nil
  then show ?case by simp
next
  case (Cons x xs)
  show ?case
  proof (cases j)
    case 0
    with Cons.prems show ?thesis by simp
  next
    case (Suc i)
    have nx: "\<not> P x" using Cons.prems(3) Suc by auto
    have "\<forall>k<i. \<not> P (xs ! k)"
    proof (intro allI impI)
      fix k assume "k < i"
      then have "Suc k < j" using Suc by simp
      with Cons.prems(3) have "\<not> P ((x # xs) ! Suc k)" by blast
      then show "\<not> P (xs ! k)" by simp
    qed
    then have "assign_found P f xs = xs[i := f (xs ! i)]"
      using Cons.IH [of i] Cons.prems(1,2) Suc by simp
    with nx Suc show ?thesis by simp
  qed
qed

section \<open>Creating clients\<close>

lemma post_clients_created:
  assumes "truthy name" "fst (readDb s) = Inr d" "writable s"
  shows "post_clients name e p s =
     ((201, AClient \<lparr>client_id = new_client_id d, client_name = name, email = e, phone = p\<rparr>),
      s\<lparr>db := Stored (d\<lparr>clients := clients d @
          [\<lparr>client_id = new_client_id d, client_name = name, email = e, phone = p\<rparr>]\<rparr>)\<rparr>)"
  using assms by (simp add: post_clients_def readDb_Inr writeDb_ok Let_def)

lemma Max_client_id:
  assumes "clients d \<noteq> []"
  shows "\<exists>c \<in> set (clients d). client_id c = Max (set (map client_id (clients d)))"
proof -
  have "Max (set (map client_id (clients d))) \<in> set (map client_id (clients d))"
    using assms by (intro Max_in) auto
  then show ?thesis by auto
qed

lemma new_client_id_exact:
  assumes "\<forall>c \<in> set (clients d). - (2 ^ 53) \<le> client_id c \<and> client_id c < 2 ^ 53"
  shows "new_client_id d =
     (if clients d = [] then 1 else Max (set (map client_id (clients d))) + 1)"
proof (cases "clients d = []")
  case True
  then show ?thesis by (simp add: new_client_id_def)
next
  case False
  from Max_client_id [OF False] assms
  have "- (2 ^ 53) \<le> Max (set (map client_id (clients d)))"
    and "Max (set (map client_id (clients d))) < 2 ^ 53"
    by auto
  then have "js_add (Max (set (map client_id (clients d)))) 1 =
      Max (set (map client_id (clients d))) + 1"
    by (intro js_add_exact) simp_all
  with False show ?thesis by (simp add: new_client_id_def)
qed

lemma Max_upto: "0 < k \<Longrightarrow> Max (set (map int [1..<Suc k])) = int k"
  by (rule Max_eqI) auto

lemma serve_creates:
  assumes "\<forall>op \<in> set ops. \<exists>n e p. op = CreateClient n e p \<and> truthy n"
    "fst (readDb s) = Inr d" "writable s"
    "map client_id (clients d) = map int [1..<Suc (length (clients d))]"
    "int (length (clients d)) + int (length ops) \<le> 2 ^ 53" "i < length ops"
  shows "\<exists>c. fst (serve ops s) ! i = (201, AClient c)
     \<and> client_id c = int (length (clients d)) + int i + 1"
  using assms
proof (induction ops arbitrary: s d i)
  case Nil
  then show ?case by simp
next
  case (Cons op ops)
  obtain n e p where r: "op = CreateClient n e p" and tn: "truthy n"
    using Cons.prems(1) by auto
  let ?k = "length (clients d)"
  have k: "int ?k < 2 ^ 53" using Cons.prems(5) by simp
  have "\<forall>c \<in> set (clients d). client_id c \<in> set (map client_id (clients d))" by simp
  then have "\<forall>c \<in> set (clients d). 1 \<le> client_id c \<and> client_id c \<le> int ?k"
    unfolding Cons.prems(4) by auto
  with k have small: "\<forall>c \<in> set (clients d). - (2 ^ 53) \<le> client_id c \<and> client_id c < 2 ^ 53"
    by fastforce
  have nid: "new_client_id d = int ?k + 1"
  proof (cases "?k = 0")
    case True then show ?thesis by (simp add: new_client_id_def)
  next
    case False
    then have "Max (set (map client_id (clients d))) = int ?k"
      using Cons.prems(4) Max_upto [of ?k] by simp
    with False show ?thesis by (simp add: new_client_id_exact [OF small])
  qed
  let ?c = "\<lparr>client_id = new_client_id d, client_name = n, email = e, phone = p\<rparr>"
  let ?d = "d\<lparr>clients := clients d @ [?c]\<rparr>"
  let ?s = "s\<lparr>db := Stored ?d\<rparr>"
  have step: "handle op s = ((201, AClient ?c), ?s)"
    using post_clients_created [OF tn Cons.prems(2,3)] r by simp
  show ?case
  proof (cases i)
    case 0
    then show ?thesis using step nid by (simp add: split_beta)
  next
    case (Suc j)
    have inv: "map client_id (clients ?d) = map int [1..<Suc (length (clients ?d))]"
      using Cons.prems(4) nid by simp
    have room: "int (length (clients ?d)) + int (length ops) \<le> 2 ^ 53"
      using Cons.prems(5) by simp
    have "\<exists>c. fst (serve ops ?s) ! j = (201, AClient c)
      \<and> client_id c = int (length (clients ?d)) + int j + 1"
      using Cons.IH [of ?s ?d j] Cons.prems(1,3,6) Suc inv room
      by (simp add: readDb_written)
    then show ?thesis using step Suc by (simp add: split_beta)
  qed
qed

text \<open>
  Claim C1, as the code has it. The new id is computed in double arithmetic, which is
  exact as long as the result is at most \<open>2^53\<close>. With a truthy name (a non-empty string,
  for one), a readable document \<open>d\<close> whose client ids are at least \<open>-2^53\<close> and below
  \<open>2^53\<close>, and a disk that takes the write, \<^verbatim>\<open>POST /api/clients\<close> answers 201 with the
  created client \<open>c\<close>; the stored document afterwards is \<open>d\<close> with exactly \<open>c\<close> appended to
  the clients; the id of \<open>c\<close> is 1 if \<open>d\<close> has no clients and the largest client id plus 1
  otherwise. Hence, in any sequence of at most \<open>2^53\<close> such creations served one after
  the other from the empty document, creation number \<open>i\<close> (counted from 1) receives id
  \<open>i\<close>.
\<close>

theorem C1_create_client_next_id:
  "(truthy name \<and> fst (readDb s) = Inr d \<and> writable s
      \<and> (\<forall>c \<in> set (clients d). - (2 ^ 53) \<le> client_id c \<and> client_id c < 2 ^ 53) \<longrightarrow>
      (\<exists>c s'. post_clients name e p s = ((201, AClient c), s')
         \<and> fst (readDb s') = Inr (d\<lparr>clients := clients d @ [c]\<rparr>)
         \<and> client_id c =
             (if clients d = [] then 1 else Max (set (map client_id (clients d))) + 1)
         \<and> client_name c = name \<and> email c = e \<and> phone c = p))
   \<and> ((\<forall>op \<in> set ops. \<exists>n e p. op = CreateClient n e p \<and> truthy n)
        \<and> fst (readDb s0) = Inr default_document \<and> writable s0
        \<and> int (length ops) \<le> 2 ^ 53 \<longrightarrow>
      (\<forall>i < length ops. \<exists>c. fst (serve ops s0) ! i = (201, AClient c)
         \<and> client_id c = int i + 1))"
proof (intro conjI impI allI)
  assume h: "truthy name \<and> fst (readDb s) = Inr d \<and> writable s
      \<and> (\<forall>c \<in> set (clients d). - (2 ^ 53) \<le> client_id c \<and> client_id c < 2 ^ 53)"
  then have "new_client_id d =
      (if clients d = [] then 1 else Max (set (map client_id (clients d))) + 1)"
    by (intro new_client_id_exact) simp
  with h show "\<exists>c s'. post_clients name e p s = ((201, AClient c), s')
         \<and> fst (readDb s') = Inr (d\<lparr>clients := clients d @ [c]\<rparr>)
         \<and> client_id c =
             (if clients d = [] then 1 else Max (set (map client_id (clients d))) + 1)
         \<and> client_name c = name \<and> email c = e \<and> phone c = p"
    using post_clients_created [of name s d e p]
    by (simp add: readDb_written)
next
  fix i
  assume h: "(\<forall>op \<in> set ops. \<exists>n e p. op = CreateClient n e p \<and> truthy n)
        \<and> fst (readDb s0) = Inr default_document \<and> writable s0
        \<and> int (length ops) \<le> 2 ^ 53"
    and i: "i < length ops"
  show "\<exists>c. fst (serve ops s0) ! i = (201, AClient c) \<and> client_id c = int i + 1"
    using serve_creates [of ops s0 default_document i] h i
    by (simp add: default_document_def)
qed

theorem C1_create_client_next_id_witness:
  "truthy (JStr ''Alice'') \<and> fst (readDb fresh) = Inr default_document
   \<and> fst (post_clients (JStr ''Alice'') JUndefined JUndefined fresh)
       = (201, AClient \<lparr>client_id = 1, client_name = JStr ''Alice'', email = JUndefined,
                        phone = JUndefined\<rparr>)
   \<and> (\<exists>c. fst (serve [CreateClient (JStr ''Alice'') JUndefined JUndefined,
                       CreateClient (JStr ''Bob'') JUndefined JUndefined]
                fresh) ! 1 = (201, AClient c) \<and> client_id c = 2)"
proof -
  let ?ops = "[CreateClient (JStr ''Alice'') JUndefined JUndefined,
                       CreateClient (JStr ''Bob'') JUndefined JUndefined]"
  have r: "fst (readDb fresh) = Inr default_document" by (simp add: readDb_result fresh_def)
  have w: "writable fresh" by (simp add: fresh_def)
  have nb: "\<forall>c \<in> set (clients default_document).
      - (2 ^ 53) \<le> client_id c \<and> client_id c < 2 ^ 53"
    by (simp add: default_document_def)
  have len: "int (length ?ops) \<le> 2 ^ 53" by simp
  note inst = C1_create_client_next_id
    [of "JStr ''Alice''" fresh default_document JUndefined JUndefined ?ops fresh]
  have a: "\<exists>c s'. post_clients (JStr ''Alice'') JUndefined JUndefined fresh = ((201, AClient c), s')
         \<and> fst (readDb s') = Inr (default_document\<lparr>clients := clients default_document @ [c]\<rparr>)
         \<and> client_id c =
             (if clients default_document = [] then 1
              else Max (set (map client_id (clients default_document))) + 1)
         \<and> client_name c = JStr ''Alice'' \<and> email c = JUndefined \<and> phone c = JUndefined"
    using inst r w nb by simp
  have b: "\<forall>i < length ?ops. \<exists>c. fst (serve ?ops fresh) ! i = (201, AClient c)
      \<and> client_id c = int i + 1"
    using inst r w len by simp
  from a obtain c s' where
    "post_clients (JStr ''Alice'') JUndefined JUndefined fresh = ((201, AClient c), s')"
    "client_id c = 1" "client_name c = JStr ''Alice''" "email c = JUndefined"
    "phone c = JUndefined"
    by (auto simp: default_document_def)
  then have a': "fst (post_clients (JStr ''Alice'') JUndefined JUndefined fresh)
       = (201, AClient \<lparr>client_id = 1, client_name = JStr ''Alice'', email = JUndefined,
                        phone = JUndefined\<rparr>)"
    by (cases c) simp
  have "(1::nat) < length ?ops" by simp
  with b have "\<exists>c. fst (serve ?ops fresh) ! 1 = (201, AClient c) \<and> client_id c = int 1 + 1"
    by blast
  then have b': "\<exists>c. fst (serve ?ops fresh) ! 1 = (201, AClient c) \<and> client_id c = 2"
    by (simp del: serve.simps)
  show ?thesis using r a' b' by (simp del: serve.simps)
qed

text \<open>
  Claim C1 says that the new id is the largest id plus 1 for every document. When the
  largest id is \<open>2^53 = 9007199254740992\<close>, the sum \<open>2^53 + 1\<close> is no double and rounds
  back to \<open>2^53\<close>: the created client gets the id that Vera already has.
\<close>

theorem C1_counterexample:
  "fst (post_clients (JStr ''Zoe'') JUndefined JUndefined
          (disk \<lparr>clients = [veteran], photos = []\<rparr>)) =
     (201, AClient \<lparr>client_id = 9007199254740992, client_name = JStr ''Zoe'',
                    email = JUndefined, phone = JUndefined\<rparr>)
   \<and> Max (set (map client_id (clients \<lparr>clients = [veteran], photos = []\<rparr>))) + 1 =
       9007199254740993"
proof -
  let ?d = "\<lparr>clients = [veteran], photos = []\<rparr>"
  have r: "fst (readDb (disk ?d)) = Inr ?d" by (simp add: readDb_result disk_def)
  have w: "writable (disk ?d)" by (simp add: disk_def)
  have n: "new_client_id ?d = 9007199254740992"
    by (simp add: new_client_id_def veteran_def js_add_tie)
  show ?thesis
    by (simp add: post_clients_created [OF _ r w] n) (simp add: veteran_def)
qed

section \<open>Deleting clients\<close>

lemma delete_clients_done:
  assumes "fst (readDb s) = Inr d" "writable s"
    "findIndex (\<lambda>c. Some (client_id c) = parseInt ident) (clients d) = Some i"
  shows "delete_clients ident s =
     ((200, Message ''Client and associated photos deleted''),
      (fold unlink_photo (filter (\<lambda>p. strict_eq (clientId p) (parseInt ident)) (photos d)) s)
        \<lparr>db := Stored \<lparr>clients = splice1 i (clients d),
            photos = filter (\<lambda>p. \<not> strict_eq (clientId p) (parseInt ident)) (photos d)\<rparr>\<rparr>)"
  using assms by (simp add: delete_clients_def readDb_Inr writeDb_ok Let_def)

lemma delete_clients_missing:
  assumes "fst (readDb s) = Inr d"
    "findIndex (\<lambda>c. Some (client_id c) = parseInt ident) (clients d) = None"
  shows "delete_clients ident s = ((404, Message ''Client not found''), s)"
  using assms by (simp add: delete_clients_def readDb_Inr Let_def)

text \<open>
  Claim C2, as the code has it. \<^verbatim>\<open>findIndex\<close> stops at the first client with the
  requested id, so the claim holds for a client that no earlier client of the list
  shares its id with (every client, when client ids are pairwise distinct). For the
  client at position \<open>i\<close> with that property, a readable document and a disk that takes
  the write, \<^verbatim>\<open>DELETE /api/clients/:id\<close> on its id answers 200; the stored clients are
  the old ones without position \<open>i\<close>, in order; the stored photos are exactly the old ones
  whose \<open>clientId\<close> differs from that id, unchanged and in order.
\<close>

theorem C2_delete_client_cascade:
  assumes "fst (readDb s) = Inr d" and "writable s"
    and "i < length (clients d)"
    and "\<forall>j<i. client_id (clients d ! j) \<noteq> client_id (clients d ! i)"
    and "parseInt ident = Some (client_id (clients d ! i))"
  shows "\<exists>s'. delete_clients ident s =
            ((200, Message ''Client and associated photos deleted''), s')
          \<and> fst (readDb s') =
              Inr \<lparr>clients = take i (clients d) @ drop (Suc i) (clients d),
                   photos = filter (\<lambda>p. clientId p \<noteq> Some (client_id (clients d ! i)))
                              (photos d)\<rparr>"
proof -
  let ?P = "\<lambda>c. Some (client_id c) = parseInt ident"
  have "findIndex ?P (clients d) = Some i"
    using assms(3,4,5) by (intro findIndex_first) auto
  from delete_clients_done [OF assms(1,2) this] assms(5) show ?thesis
    by (simp add: readDb_written splice1_def)
qed

theorem C2_delete_client_cascade_witness:
  "fst (readDb (disk album)) = Inr album
   \<and> parseInt ''1'' = Some (client_id (clients album ! 0))
   \<and> fst (delete_clients ''1'' (disk album)) =
       (200, Message ''Client and associated photos deleted'')
   \<and> fst (readDb (snd (delete_clients ''1'' (disk album)))) =
       Inr \<lparr>clients = [bob], photos = [picture 2 (Some 2) ''b.jpg'' (JBool False)]\<rparr>"
proof -
  have r: "fst (readDb (disk album)) = Inr album" by (simp add: readDb_result disk_def)
  have w: "writable (disk album)" by (simp add: disk_def)
  have "parseInt ''1'' = Some 1" by code_simp
  then have p: "parseInt ''1'' = Some (client_id (clients album ! 0))"
    by (simp add: album_def ann_def)
  have i: "0 < length (clients album)" by (simp add: album_def)
  have f: "\<forall>j<0. client_id (clients album ! j) \<noteq> client_id (clients album ! 0)" by simp
  from C2_delete_client_cascade [OF r w i f p]
  obtain s' where
    "delete_clients ''1'' (disk album) =
       ((200, Message ''Client and associated photos deleted''), s')"
    and "fst (readDb s') =
       Inr \<lparr>clients = take 0 (clients album) @ drop (Suc 0) (clients album),
            photos = filter (\<lambda>p. clientId p \<noteq> Some (client_id (clients album ! 0)))
                       (photos album)\<rparr>"
    by blast
  then have "fst (delete_clients ''1'' (disk album)) =
       (200, Message ''Client and associated photos deleted'')
    \<and> fst (readDb (snd (delete_clients ''1'' (disk album)))) =
       Inr \<lparr>clients = [bob], photos = [picture 2 (Some 2) ''b.jpg'' (JBool False)]\<rparr>"
    by (simp add: album_def ann_def picture_def)
  with r p show ?thesis by simp
qed

text \<open>
  Claim C2, as stated, fails when an earlier client shares the id: deleting by Bea's id
  removes Ann, another client, and leaves Bea in the document.
\<close>

theorem C2_counterexample:
  "bea \<in> set (clients \<lparr>clients = [ann, bea], photos = []\<rparr>)
   \<and> parseInt ''1'' = Some (client_id bea)
   \<and> delete_clients ''1'' (disk \<lparr>clients = [ann, bea], photos = []\<rparr>) =
       ((200, Message ''Client and associated photos deleted''),
        disk \<lparr>clients = [bea], photos = []\<rparr>)
   \<and> bea \<in> set (clients \<lparr>clients = [bea], photos = []\<rparr>)
   \<and> ann \<noteq> bea
   \<and> ann \<notin> set (clients \<lparr>clients = [bea], photos = []\<rparr>)"
proof -
  have p: "parseInt ''1'' = Some 1" by code_simp
  have "delete_clients ''1'' (disk \<lparr>clients = [ann, bea], photos = []\<rparr>) =
       ((200, Message ''Client and associated photos deleted''),
        disk \<lparr>clients = [bea], photos = []\<rparr>)"
    by (simp add: delete_clients_def p readDb_def readFile_parse_def writeDb_def disk_def
        ann_def bea_def splice1_def)
  then show ?thesis using p by (simp add: ann_def bea_def)
qed

section \<open>Requests that fail\<close>

lemma post_clients_rejected:
  "\<not> truthy name \<Longrightarrow> post_clients name e p s = ((400, Message ''Client name is required''), s)"
  by (simp add: post_clients_def)

lemma post_photos_rejected:
  "cid = None \<or> cid = Some [] \<or> files = None \<or> files = Some [] \<Longrightarrow>
   post_photos cid files now s =
     ((400, Message ''Client ID and files are required''), upload_array files s)"
  by (auto simp: post_photos_def Let_def split: option.splits)

lemma delete_photos_missing:
  assumes "fst (readDb s) = Inr d"
    "findIndex (\<lambda>p. Some (photo_id p) = parseInt ident) (photos d) = None"
  shows "delete_photos ident s = ((404, Message ''Photo not found''), s)"
  using assms by (simp add: delete_photos_def readDb_Inr Let_def)

lemma put_favorite_missing:
  assumes "fst (readDb s) = Inr d"
    "find (\<lambda>p. Some (photo_id p) = parseInt ident) (photos d) = None"
  shows "put_favorite ident s = ((404, Message ''Photo not found''), s)"
  using assms by (simp add: put_favorite_def readDb_Inr Let_def)

lemma failed_handle_db:
  assumes "fst (fst (handle op s)) = 400 \<or> fst (fst (handle op s)) = 404"
  shows "db (snd (handle op s)) = db s"
proof (cases "fst (readDb s)")
  case (Inl err)
  have r: "readDb s = (Inl err, s)" by (rule readDb_Inl [OF Inl])
  have r': "\<And>fl. readDb (upload_array fl s) = (Inl err, upload_array fl s)"
    by (rule readDb_Inl) (simp add: Inl)
  show ?thesis
    using assms
    by (cases op)
      (auto simp: get_data_def post_clients_def delete_clients_def post_photos_def
        delete_photos_def put_favorite_def r r' Let_def split: option.splits if_splits)
next
  case (Inr d)
  have r: "readDb s = (Inr d, s)" by (rule readDb_Inr [OF Inr])
  have r': "\<And>fl. readDb (upload_array fl s) = (Inr d, upload_array fl s)"
    by (rule readDb_Inr) (simp add: Inr)
  show ?thesis
    using assms
    by (cases op)
      (auto simp: get_data_def post_clients_def delete_clients_def post_photos_def
        delete_photos_def put_favorite_def r r' Let_def writeDb_def
        split: option.splits if_splits)
qed

text \<open>
  Claim C3. A request that fails validation or names an id the document does not hold
  is answered before anything is written. \<^verbatim>\<open>POST /api/clients\<close> with a falsy name
  answers 400 and leaves the store as it was; \<^verbatim>\<open>POST /api/photos\<close> with a missing or
  empty \<open>clientId\<close>, or without files, answers 400 and leaves the document file as it
  was; the two deletes and the favorite toggle on an id that no record of the loaded
  document has (an id that does not parse included) answer 404 and leave the store as it
  was. In general, whenever any handler answers 400 or 404, the document file after the
  request is the document file before it.
\<close>

theorem C3_failed_requests_write_nothing:
  "(\<not> truthy name \<longrightarrow>
      post_clients name e p s = ((400, Message ''Client name is required''), s))
   \<and> (cid = None \<or> cid = Some [] \<or> files = None \<or> files = Some [] \<longrightarrow>
        fst (post_photos cid files now s) = (400, Message ''Client ID and files are required'')
        \<and> db (snd (post_photos cid files now s)) = db s)
   \<and> (fst (readDb s) = Inr d \<and> (\<forall>c \<in> set (clients d). Some (client_id c) \<noteq> parseInt ident) \<longrightarrow>
        delete_clients ident s = ((404, Message ''Client not found''), s))
   \<and> (fst (readDb s) = Inr d \<and> (\<forall>q \<in> set (photos d). Some (photo_id q) \<noteq> parseInt ident) \<longrightarrow>
        delete_photos ident s = ((404, Message ''Photo not found''), s)
        \<and> put_favorite ident s = ((404, Message ''Photo not found''), s))
   \<and> (fst (fst (handle op s)) = 400 \<or> fst (fst (handle op s)) = 404 \<longrightarrow>
        db (snd (handle op s)) = db s)"
proof (intro conjI impI)
  assume "\<not> truthy name"
  then show "post_clients name e p s = ((400, Message ''Client name is required''), s)"
    by (rule post_clients_rejected)
next
  assume h: "cid = None \<or> cid = Some [] \<or> files = None \<or> files = Some []"
  show "fst (post_photos cid files now s) = (400, Message ''Client ID and files are required'')"
    by (simp add: post_photos_rejected [OF h])
  show "db (snd (post_photos cid files now s)) = db s"
    by (simp add: post_photos_rejected [OF h])
next
  assume h: "fst (readDb s) = Inr d \<and> (\<forall>c \<in> set (clients d). Some (client_id c) \<noteq> parseInt ident)"
  then have "findIndex (\<lambda>c. Some (client_id c) = parseInt ident) (clients d) = None"
    by (auto simp: findIndex_None)
  with h show "delete_clients ident s = ((404, Message ''Client not found''), s)"
    by (simp add: delete_clients_missing)
next
  assume h: "fst (readDb s) = Inr d \<and> (\<forall>q \<in> set (photos d). Some (photo_id q) \<noteq> parseInt ident)"
  then have "findIndex (\<lambda>p. Some (photo_id p) = parseInt ident) (photos d) = None"
    by (auto simp: findIndex_None)
  with h show "delete_photos ident s = ((404, Message ''Photo not found''), s)"
    by (simp add: delete_photos_missing)
  from h have "find (\<lambda>p. Some (photo_id p) = parseInt ident) (photos d) = None"
    by (auto simp: find_None_iff)
  with h show "put_favorite ident s = ((404, Message ''Photo not found''), s)"
    by (simp add: put_favorite_missing)
next
  assume "fst (fst (handle op s)) = 400 \<or> fst (fst (handle op s)) = 404"
  then show "db (snd (handle op s)) = db s" by (rule failed_handle_db)
qed


theorem C3_failed_requests_write_nothing_witness:
  "post_clients (JStr []) JNull JNull (disk album) =
      ((400, Message ''Client name is required''), disk album)
   \<and> fst (post_photos (Some ''1'') (Some []) noon (disk album)) =
        (400, Message ''Client ID and files are required'')
   \<and> db (snd (post_photos (Some ''1'') (Some []) noon (disk album))) = Stored album
   \<and> parseInt ''7'' = Some 7
   \<and> map client_id (clients album) = [1, 2]
   \<and> map photo_id (photos album) = [1, 2, 3]
   \<and> delete_clients ''7'' (disk album) = ((404, Message ''Client not found''), disk album)
   \<and> delete_photos ''7'' (disk album) = ((404, Message ''Photo not found''), disk album)
   \<and> put_favorite ''7'' (disk album) = ((404, Message ''Photo not found''), disk album)
   \<and> fst (fst (handle (DeleteClient ''7'') (disk album))) = 404
   \<and> db (snd (handle (DeleteClient ''7'') (disk album))) = Stored album"
proof -
  note inst = C3_failed_requests_write_nothing
    [of "JStr []" JNull JNull "disk album" "Some ''1''" "Some []" noon album "''7''"
       "DeleteClient ''7''"]
  have p: "parseInt ''7'' = Some 7" by code_simp
  have r: "fst (readDb (disk album)) = Inr album" by (simp add: readDb_result disk_def)
  have cs: "map client_id (clients album) = [1, 2]" by (simp add: album_def ann_def bob_def)
  have ps: "map photo_id (photos album) = [1, 2, 3]" by (simp add: album_def picture_def)
  have nc: "\<forall>c \<in> set (clients album). Some (client_id c) \<noteq> parseInt ''7''"
    by (simp add: p album_def ann_def bob_def)
  have np: "\<forall>q \<in> set (photos album). Some (photo_id q) \<noteq> parseInt ''7''"
    by (simp add: p album_def picture_def)
  have a: "post_clients (JStr []) JNull JNull (disk album) =
      ((400, Message ''Client name is required''), disk album)"
    using inst by simp
  have b: "fst (post_photos (Some ''1'') (Some []) noon (disk album)) =
        (400, Message ''Client ID and files are required'')
      \<and> db (snd (post_photos (Some ''1'') (Some []) noon (disk album))) = db (disk album)"
    using inst by simp
  have c: "delete_clients ''7'' (disk album) = ((404, Message ''Client not found''), disk album)"
    using inst r nc by blast
  have d: "delete_photos ''7'' (disk album) = ((404, Message ''Photo not found''), disk album)
      \<and> put_favorite ''7'' (disk album) = ((404, Message ''Photo not found''), disk album)"
    using inst r np by blast
  have e: "fst (fst (handle (DeleteClient ''7'') (disk album))) = 404" using c by simp
  then have f: "db (snd (handle (DeleteClient ''7'') (disk album))) = db (disk album)"
    using inst by blast
  have g: "db (disk album) = Stored album" by (simp add: disk_def)
  show ?thesis using a b c d e f g p cs ps by simp
qed

section \<open>Loading the document\<close>

text \<open>
  Claim C7. Of all the ways in which reading and parsing the file can fail, \<open>readDb\<close>
  answers the absent file, and only that one, with the default empty document
  \<^verbatim>\<open>{clients: [], photos: []}\<close>; a malformed file or a file that cannot be read makes it
  fail with the error of the parse or of the read. A file that is read and parsed is
  answered with its own content, so that the result is the empty document when the file
  is absent or holds the empty document, and in no other case. In every case the store is
  left as it was.
\<close>

theorem C7_load:
  "(db s = Missing \<longrightarrow> readDb s = (Inr default_document, s))
   \<and> (db s = Stored d \<longrightarrow> readDb s = (Inr d, s))
   \<and> (db s = Malformed \<or> db s = Denied \<longrightarrow> (\<exists>err. readDb s = (Inl err, s)))
   \<and> ((\<exists>err. readFile_parse s = Inl err) \<longrightarrow>
        (fst (readDb s) = Inr default_document \<longleftrightarrow> db s = Missing))
   \<and> (fst (readDb s) = Inr default_document \<longleftrightarrow>
        db s = Missing \<or> db s = Stored default_document)
   \<and> snd (readDb s) = s"
proof -
  have "(\<exists>err. readFile_parse s = Inl err) \<longrightarrow>
        (fst (readDb s) = Inr default_document \<longleftrightarrow> db s = Missing)"
    by (auto simp: readDb_result readFile_parse_def split: dbfile.splits)
  then show ?thesis
    using readDb_pair [of s] by (auto simp: readDb_result split: dbfile.splits)
qed

theorem C7_load_witness:
  "readDb fresh = (Inr \<lparr>clients = [], photos = []\<rparr>, fresh)
   \<and> readDb (disk album) = (Inr album, disk album)
   \<and> (\<exists>err. readDb \<lparr>db = Malformed, uploads = {}, writable = True\<rparr> =
         (Inl err, \<lparr>db = Malformed, uploads = {}, writable = True\<rparr>))
   \<and> (\<exists>err. readDb \<lparr>db = Denied, uploads = {}, writable = True\<rparr> =
         (Inl err, \<lparr>db = Denied, uploads = {}, writable = True\<rparr>))
   \<and> readFile_parse \<lparr>db = Malformed, uploads = {}, writable = True\<rparr> = Inl SyntaxError
   \<and> fst (readDb \<lparr>db = Malformed, uploads = {}, writable = True\<rparr>) \<noteq> Inr default_document"
proof -
  let ?m = "\<lparr>db = Malformed, uploads = {}, writable = True\<rparr>"
  have a: "readDb fresh = (Inr default_document, fresh)"
    using C7_load [of fresh] by (simp add: fresh_def)
  have b: "readDb (disk album) = (Inr album, disk album)"
    using C7_load [of "disk album" album] by (simp add: disk_def)
  have c: "\<exists>err. readDb ?m = (Inl err, ?m)"
    using C7_load [of ?m] by simp
  have d: "\<exists>err. readDb \<lparr>db = Denied, uploads = {}, writable = True\<rparr> =
         (Inl err, \<lparr>db = Denied, uploads = {}, writable = True\<rparr>)"
    using C7_load [of "\<lparr>db = Denied, uploads = {}, writable = True\<rparr>"] by simp
  have e: "readFile_parse ?m = Inl SyntaxError" by (simp add: readFile_parse_def)
  then have "\<exists>err. readFile_parse ?m = Inl err" by blast
  with C7_load [of ?m] have "fst (readDb ?m) = Inr default_document \<longleftrightarrow> db ?m = Missing"
    by blast
  then have f: "fst (readDb ?m) \<noteq> Inr default_document" by simp
  show ?thesis using a b c d e f by (simp add: default_document_def)
qed

section \<open>Listing the data\<close>

text \<open>
  Claim C8. \<^verbatim>\<open>GET /api/data\<close> leaves the store exactly as it was, answers 200 with the
  loaded document as it is, and a second call right after the first gives the same
  response and the same store.
\<close>

theorem C8_list_data:
  "snd (get_data s) = s
   \<and> (fst (readDb s) = Inr d \<longrightarrow> fst (get_data s) = (200, Data d))
   \<and> get_data (snd (get_data s)) = get_data s"
proof -
  have "snd (get_data s) = s"
    using readDb_pair [of s] by (cases "fst (readDb s)") (simp_all add: get_data_def)
  moreover have "fst (readDb s) = Inr d \<longrightarrow> fst (get_data s) = (200, Data d)"
    by (simp add: get_data_def readDb_Inr)
  ultimately show ?thesis by simp
qed

theorem C8_list_data_witness:
  "fst (readDb (disk album)) = Inr album
   \<and> get_data (disk album) = ((200, Data album), disk album)
   \<and> get_data (snd (get_data (disk album))) = ((200, Data album), disk album)"
proof -
  have r: "fst (readDb (disk album)) = Inr album" by (simp add: readDb_result disk_def)
  have "snd (get_data (disk album)) = disk album"
    and "fst (get_data (disk album)) = (200, Data album)"
    and "get_data (snd (get_data (disk album))) = get_data (disk album)"
    using C8_list_data [of "disk album" album] r by simp_all
  then show ?thesis using r by (simp add: prod_eq_iff)
qed

section \<open>Uploading photos\<close>

lemma post_photos_created:
  assumes "c \<noteq> []" "fl \<noteq> []" "fst (readDb s) = Inr d" "writable s"
  shows "post_photos (Some c) (Some fl) now s =
     ((201, Photos (map (new_photo (max_photo_id d) c now) (enumerate 0 fl))),
      (upload_array (Some fl) s)
        \<lparr>db := Stored (d\<lparr>photos := photos d @
             map (new_photo (max_photo_id d) c now) (enumerate 0 fl)\<rparr>)\<rparr>)"
proof -
  have "readDb (upload_array (Some fl) s) = (Inr d, upload_array (Some fl) s)"
    by (rule readDb_Inr) (simp add: assms(3))
  then show ?thesis
    using assms by (simp add: post_photos_def writeDb_ok Let_def)
qed

lemma new_photo_nth:
  assumes "i < length fl"
  shows "new_photo m c now (enumerate 0 fl ! i) =
     \<lparr>photo_id = js_add (js_add m (int i)) 1, clientId = parseInt c,
      photo_name = JStr (originalname (fl ! i)),
      url = JStr (''/uploads/'' @ filename (fl ! i)),
      photo_size = JNum (fsize (fl ! i)), uploaded = JStr (now i),
      favorite = JBool False\<rparr>"
  using assms by (simp add: new_photo_def nth_enumerate_eq)

lemma new_photo_id_exact:
  assumes "- (2 ^ 53) \<le> m" "m + int n \<le> 2 ^ 53" "i < n"
  shows "js_add (js_add m (int i)) 1 = m + int i + 1"
proof -
  have "js_add m (int i) = m + int i"
    using assms by (intro js_add_exact) simp_all
  moreover have "js_add (m + int i) 1 = m + int i + 1"
    using assms by (intro js_add_exact) simp_all
  ultimately show ?thesis by simp
qed

lemma max_photo_id_low:
  assumes "\<forall>p \<in> set (photos d). - (2 ^ 53) \<le> photo_id p"
  shows "- (2 ^ 53) \<le> max_photo_id d"
proof (cases "photos d = []")
  case True
  then show ?thesis by (simp add: max_photo_id_def)
next
  case False
  then have "Max (set (map photo_id (photos d))) \<in> set (map photo_id (photos d))"
    by (intro Max_in) auto
  with assms have "- (2 ^ 53) \<le> Max (set (map photo_id (photos d)))" by auto
  with False show ?thesis by (simp add: max_photo_id_def)
qed

text \<open>
  Claim C4, as the code has it. The ids are computed in double arithmetic, which is exact
  as long as the results are at most \<open>2^53\<close>, and the stored \<open>clientId\<close> is what
  \<^verbatim>\<open>parseInt\<close> makes of the field. With a non-empty \<open>clientId\<close> field, \<open>n \<ge> 1\<close> files, a
  readable document \<open>d\<close> whose photo ids are at least \<open>-2^53\<close> and whose largest photo id
  \<open>base\<close> (0 without photos) satisfies \<open>base + n \<le> 2^53\<close>, and a disk that takes the
  write, \<^verbatim>\<open>POST /api/photos\<close> answers 201 with the created photos in the order of the
  files; the stored document afterwards is \<open>d\<close> with exactly these \<open>n\<close> photos appended in
  that order. Photo number \<open>i\<close> (from 0) has id \<open>base + i + 1\<close>, \<open>favorite = false\<close>, the
  name, blob location and size of file \<open>i\<close>, and as \<open>clientId\<close> the result of
  \<^verbatim>\<open>parseInt\<close> on the field, which is no number when the field does not start with an
  integer.
\<close>

theorem C4_upload_photos:
  assumes "c \<noteq> []" and "fl \<noteq> []" and "fst (readDb s) = Inr d" and "writable s"
    and "\<forall>p \<in> set (photos d). - (2 ^ 53) \<le> photo_id p"
    and "(if photos d = [] then 0 else Max (set (map photo_id (photos d))))
           + int (length fl) \<le> 2 ^ 53"
  shows "\<exists>new s'. post_photos (Some c) (Some fl) now s = ((201, Photos new), s')
     \<and> fst (readDb s') = Inr (d\<lparr>photos := photos d @ new\<rparr>)
     \<and> length new = length fl
     \<and> (\<forall>i < length fl.
           photo_id (new ! i) =
             (if photos d = [] then 0 else Max (set (map photo_id (photos d)))) + int i + 1
         \<and> clientId (new ! i) = parseInt c
         \<and> favorite (new ! i) = JBool False
         \<and> photo_name (new ! i) = JStr (originalname (fl ! i))
         \<and> url (new ! i) = JStr (''/uploads/'' @ filename (fl ! i))
         \<and> photo_size (new ! i) = JNum (fsize (fl ! i))
         \<and> uploaded (new ! i) = JStr (now i))"
proof -
  let ?new = "map (new_photo (max_photo_id d) c now) (enumerate 0 fl)"
  let ?s = "(upload_array (Some fl) s)\<lparr>db := Stored (d\<lparr>photos := photos d @ ?new\<rparr>)\<rparr>"
  have base: "max_photo_id d =
      (if photos d = [] then 0 else Max (set (map photo_id (photos d))))"
    by (simp add: max_photo_id_def)
  have low: "- (2 ^ 53) \<le> max_photo_id d" by (rule max_photo_id_low [OF assms(5)])
  have high: "max_photo_id d + int (length fl) \<le> 2 ^ 53" using assms(6) base by simp
  have ids: "js_add (js_add (max_photo_id d) (int i)) 1 = max_photo_id d + int i + 1"
    if "i < length fl" for i
    by (rule new_photo_id_exact [OF low high that])
  have "post_photos (Some c) (Some fl) now s = ((201, Photos ?new), ?s)"
    by (rule post_photos_created [OF assms(1-4)])
  moreover have "fst (readDb ?s) = Inr (d\<lparr>photos := photos d @ ?new\<rparr>)"
    by (rule readDb_written)
  moreover have "length ?new = length fl" by simp
  moreover have "\<forall>i < length fl.
           photo_id (?new ! i) =
             (if photos d = [] then 0 else Max (set (map photo_id (photos d)))) + int i + 1
         \<and> clientId (?new ! i) = parseInt c
         \<and> favorite (?new ! i) = JBool False
         \<and> photo_name (?new ! i) = JStr (originalname (fl ! i))
         \<and> url (?new ! i) = JStr (''/uploads/'' @ filename (fl ! i))
         \<and> photo_size (?new ! i) = JNum (fsize (fl ! i))
         \<and> uploaded (?new ! i) = JStr (now i)"
    using ids base by (simp add: new_photo_nth)
  ultimately show ?thesis by blast
qed

theorem C4_upload_photos_witness:
  "fst (readDb (disk album)) = Inr album
   \<and> (\<exists>new s'.
         post_photos (Some ''2'') (Some [jpg ''x.jpg'', jpg ''y.jpg'']) noon (disk album) =
           ((201, Photos new), s')
       \<and> fst (readDb s') = Inr (album\<lparr>photos := photos album @ new\<rparr>)
       \<and> length new = 2
       \<and> photo_id (new ! 0) = 4 \<and> photo_id (new ! 1) = 5
       \<and> clientId (new ! 0) = Some 2 \<and> clientId (new ! 1) = Some 2
       \<and> favorite (new ! 0) = JBool False \<and> favorite (new ! 1) = JBool False
       \<and> photo_name (new ! 0) = JStr ''x.jpg'' \<and> photo_name (new ! 1) = JStr ''y.jpg'')"
proof -
  let ?fl = "[jpg ''x.jpg'', jpg ''y.jpg'']"
  have r: "fst (readDb (disk album)) = Inr album" by (simp add: readDb_result disk_def)
  have w: "writable (disk album)" by (simp add: disk_def)
  have p: "parseInt ''2'' = Some 2" by code_simp
  have m: "(if photos album = [] then 0 else Max (set (map photo_id (photos album)))) = 3"
    by (simp add: album_def picture_def)
  have low: "\<forall>q \<in> set (photos album). - (2 ^ 53) \<le> photo_id q"
    by (simp add: album_def picture_def)
  have high: "(if photos album = [] then 0 else Max (set (map photo_id (photos album))))
           + int (length ?fl) \<le> 2 ^ 53"
    unfolding m by simp
  from C4_upload_photos [of "''2''" ?fl "disk album" album noon, OF _ _ r w low high]
  obtain new s' where n:
    "post_photos (Some ''2'') (Some ?fl) noon (disk album) = ((201, Photos new), s')"
    "fst (readDb s') = Inr (album\<lparr>photos := photos album @ new\<rparr>)"
    "length new = length ?fl"
    and each: "\<And>i. i < length ?fl \<Longrightarrow>
           photo_id (new ! i) =
             (if photos album = [] then 0 else Max (set (map photo_id (photos album))))
               + int i + 1
         \<and> clientId (new ! i) = parseInt ''2''
         \<and> favorite (new ! i) = JBool False
         \<and> photo_name (new ! i) = JStr (originalname (?fl ! i))"
    by auto
  have e0: "photo_id (new ! 0) = 4 \<and> clientId (new ! 0) = Some 2
      \<and> favorite (new ! 0) = JBool False \<and> photo_name (new ! 0) = JStr ''x.jpg''"
    using each [of 0] by (simp add: m p jpg_def)
  have e1: "photo_id (new ! 1) = 5 \<and> clientId (new ! 1) = Some 2
      \<and> favorite (new ! 1) = JBool False \<and> photo_name (new ! 1) = JStr ''y.jpg''"
    using each [of 1] by (simp add: m p jpg_def)
  have "length new = 2" using n(3) by simp
  with n(1,2) e0 e1 r show ?thesis by blast
qed

text \<open>
  Claim C4 says that every created photo has the given \<open>clientId\<close> and that the ids are
  \<open>base + 1, ..., base + n\<close> for every document. An upload with the field \<^verbatim>\<open>abc\<close>
  succeeds, and its photo has no client id (\<^verbatim>\<open>NaN\<close>, written as \<^verbatim>\<open>null\<close>). And after a
  photo with id \<open>2^53 = 9007199254740992\<close>, an upload of two files gives both the id
  \<open>2^53\<close>, since \<open>2^53 + 1\<close> is no double and rounds back.
\<close>

theorem C4_counterexample:
  "fst (post_photos (Some ''abc'') (Some [jpg ''x.jpg'']) noon fresh) =
     (201, Photos
        [\<lparr>photo_id = 1, clientId = None, photo_name = JStr ''x.jpg'',
          url = JStr ''/uploads/photos-x.jpg'', photo_size = JNum 1024,
          uploaded = JStr ''2024-05-01T12:00:00.000Z'', favorite = JBool False\<rparr>])
   \<and> fst (post_photos (Some ''1'') (Some [jpg ''x.jpg'', jpg ''y.jpg'']) noon
           (disk \<lparr>clients = [ann],
                  photos = [picture 9007199254740992 (Some 1) ''a.jpg'' (JBool False)]\<rparr>)) =
     (201, Photos
        [\<lparr>photo_id = 9007199254740992, clientId = Some 1, photo_name = JStr ''x.jpg'',
          url = JStr ''/uploads/photos-x.jpg'', photo_size = JNum 1024,
          uploaded = JStr ''2024-05-01T12:00:00.000Z'', favorite = JBool False\<rparr>,
         \<lparr>photo_id = 9007199254740992, clientId = Some 1, photo_name = JStr ''y.jpg'',
          url = JStr ''/uploads/photos-y.jpg'', photo_size = JNum 1024,
          uploaded = JStr ''2024-05-01T12:00:00.000Z'', favorite = JBool False\<rparr>])"
proof -
  have p: "parseInt ''abc'' = None" by code_simp
  have p1: "parseInt ''1'' = Some 1" by code_simp
  have r: "fst (readDb fresh) = Inr default_document" by (simp add: readDb_result fresh_def)
  have w: "writable fresh" by (simp add: fresh_def)
  have z: "js_add (js_add 0 0) 1 = 1" by code_simp
  have a: "fst (post_photos (Some ''abc'') (Some [jpg ''x.jpg'']) noon fresh) =
     (201, Photos
        [\<lparr>photo_id = 1, clientId = None, photo_name = JStr ''x.jpg'',
          url = JStr ''/uploads/photos-x.jpg'', photo_size = JNum 1024,
          uploaded = JStr ''2024-05-01T12:00:00.000Z'', favorite = JBool False\<rparr>])"
    by (simp add: post_photos_created [OF _ _ r w] new_photo_def p enumerate_eq_zip
        max_photo_id_def default_document_def jpg_def noon_def z)
  let ?d = "\<lparr>clients = [ann],
      photos = [picture 9007199254740992 (Some 1) ''a.jpg'' (JBool False)]\<rparr>"
  have r2: "fst (readDb (disk ?d)) = Inr ?d" by (simp add: readDb_result disk_def)
  have w2: "writable (disk ?d)" by (simp add: disk_def)
  have m: "max_photo_id ?d = 9007199254740992" by (simp add: max_photo_id_def picture_def)
  have b: "fst (post_photos (Some ''1'') (Some [jpg ''x.jpg'', jpg ''y.jpg'']) noon (disk ?d)) =
     (201, Photos
        [\<lparr>photo_id = 9007199254740992, clientId = Some 1, photo_name = JStr ''x.jpg'',
          url = JStr ''/uploads/photos-x.jpg'', photo_size = JNum 1024,
          uploaded = JStr ''2024-05-01T12:00:00.000Z'', favorite = JBool False\<rparr>,
         \<lparr>photo_id = 9007199254740992, clientId = Some 1, photo_name = JStr ''y.jpg'',
          url = JStr ''/uploads/photos-y.jpg'', photo_size = JNum 1024,
          uploaded = JStr ''2024-05-01T12:00:00.000Z'', favorite = JBool False\<rparr>])"
    by (simp add: post_photos_created [OF _ _ r2 w2] m new_photo_def p1 enumerate_eq_zip
        jpg_def noon_def js_add_tie js_add_zero)
  from a b show ?thesis by (rule conjI)
qed

section \<open>Uploads whose client id does not parse\<close>

lemma post_photos_status:
  assumes "c \<noteq> []" "fl \<noteq> []"
  shows "fst (fst (post_photos (Some c) (Some fl) now s)) = 201
       \<or> fst (fst (post_photos (Some c) (Some fl) now s)) = 500"
proof (cases "fst (readDb s)")
  case (Inl err)
  have "readDb (upload_array (Some fl) s) = (Inl err, upload_array (Some fl) s)"
    by (rule readDb_Inl) (simp add: Inl)
  then show ?thesis using assms by (simp add: post_photos_def Let_def)
next
  case (Inr d)
  have "readDb (upload_array (Some fl) s) = (Inr d, upload_array (Some fl) s)"
    by (rule readDb_Inr) (simp add: Inr)
  then show ?thesis using assms by (simp add: post_photos_def Let_def writeDb_def)
qed

lemma post_photos_400_iff:
  "fst (fst (post_photos cid files now s)) = 400 \<longleftrightarrow>
     cid = None \<or> cid = Some [] \<or> files = None \<or> files = Some []"
proof
  assume "cid = None \<or> cid = Some [] \<or> files = None \<or> files = Some []"
  then show "fst (fst (post_photos cid files now s)) = 400"
    by (simp add: post_photos_rejected)
next
  assume st: "fst (fst (post_photos cid files now s)) = 400"
  show "cid = None \<or> cid = Some [] \<or> files = None \<or> files = Some []"
  proof (rule ccontr)
    assume "\<not> (cid = None \<or> cid = Some [] \<or> files = None \<or> files = Some [])"
    then obtain c fl where "cid = Some c" "c \<noteq> []" "files = Some fl" "fl \<noteq> []" by auto
    with post_photos_status [of c fl now s] st show False by simp
  qed
qed

lemma delete_clients_keeps_unowned:
  assumes "fst (readDb s) = Inr d"
  shows "\<exists>d'. fst (readDb (snd (delete_clients ident s))) = Inr d'
     \<and> filter (\<lambda>p. clientId p = None) (photos d') = filter (\<lambda>p. clientId p = None) (photos d)"
proof (cases "findIndex (\<lambda>c. Some (client_id c) = parseInt ident) (clients d)")
  case None
  then show ?thesis using assms by (simp add: delete_clients_missing)
next
  case (Some i)
  from findIndex_Some [OF Some] obtain n where n: "parseInt ident = Some n"
    by (cases "parseInt ident") auto
  show ?thesis
  proof (cases "writable s")
    case True
    have keep: "filter (\<lambda>p. clientId p = None) (filter (\<lambda>p. clientId p \<noteq> Some n) (photos d))
        = filter (\<lambda>p. clientId p = None) (photos d)"
      by (simp add: conj_commute) (rule filter_cong, auto)
    show ?thesis
      using delete_clients_done [OF assms True Some] keep
      by (simp add: n readDb_written)
  next
    case False
    have "readDb s = (Inr d, s)" by (rule readDb_Inr [OF assms])
    then have "db (snd (delete_clients ident s)) = db s"
      using Some False by (simp add: delete_clients_def Let_def writeDb_def)
    then have "fst (readDb (snd (delete_clients ident s))) = Inr d"
      using readDb_db [of "snd (delete_clients ident s)" s] assms by simp
    then show ?thesis by simp
  qed
qed

lemma serve_deletes_keep_unowned:
  assumes "fst (readDb s) = Inr d"
  shows "\<exists>d'. fst (readDb (snd (serve (map DeleteClient ids) s))) = Inr d'
     \<and> filter (\<lambda>p. clientId p = None) (photos d') = filter (\<lambda>p. clientId p = None) (photos d)"
  using assms
proof (induction ids arbitrary: s d)
  case Nil
  then show ?case by simp
next
  case (Cons i ids)
  from delete_clients_keeps_unowned [OF Cons.prems, of i]
  obtain d1 where d1: "fst (readDb (snd (delete_clients i s))) = Inr d1"
    "filter (\<lambda>p. clientId p = None) (photos d1) = filter (\<lambda>p. clientId p = None) (photos d)"
    by blast
  from Cons.IH [OF d1(1)] d1(2) show ?case
    by (simp add: split_beta)
qed

text \<open>
  Claim C10. \<^verbatim>\<open>POST /api/photos\<close> answers 400 exactly when the \<open>clientId\<close> field is
  missing or empty or no file is attached: nothing else about the field is checked.
  With a non-empty field from which \<^verbatim>\<open>parseInt\<close> reads no number, at least one file, a
  readable document and a disk that takes the write, the upload succeeds; every photo it
  stores has no number as \<open>clientId\<close> (\<^verbatim>\<open>NaN\<close> in memory when the field does not start
  with an integer, \<^verbatim>\<open>null\<close> in the file), which \<^verbatim>\<open>===\<close> equates with no number, and so
  with no client's id; and whatever client deletions follow, all these photos are still
  in the stored document.
\<close>

theorem C10_upload_unparsed_client_id:
  "(fst (fst (post_photos cid files now s)) = 400 \<longleftrightarrow>
      cid = None \<or> cid = Some [] \<or> files = None \<or> files = Some [])
   \<and> (c \<noteq> [] \<and> parseInt c = None \<and> fl \<noteq> [] \<and> fst (readDb s) = Inr d \<and> writable s \<longrightarrow>
        (\<exists>new s'. post_photos (Some c) (Some fl) now s = ((201, Photos new), s')
           \<and> fst (readDb s') = Inr (d\<lparr>photos := photos d @ new\<rparr>)
           \<and> length new = length fl
           \<and> (\<forall>p \<in> set new. clientId p = None \<and> (\<forall>k. \<not> strict_eq (clientId p) (Some k)))
           \<and> (\<forall>ids. \<exists>d'. fst (readDb (snd (serve (map DeleteClient ids) s'))) = Inr d'
                 \<and> set new \<subseteq> set (photos d'))))"
proof (intro conjI impI)
  show "fst (fst (post_photos cid files now s)) = 400 \<longleftrightarrow>
      cid = None \<or> cid = Some [] \<or> files = None \<or> files = Some []"
    by (rule post_photos_400_iff)
next
  assume h: "c \<noteq> [] \<and> parseInt c = None \<and> fl \<noteq> [] \<and> fst (readDb s) = Inr d \<and> writable s"
  let ?new = "map (new_photo (max_photo_id d) c now) (enumerate 0 fl)"
  let ?s = "(upload_array (Some fl) s)\<lparr>db := Stored (d\<lparr>photos := photos d @ ?new\<rparr>)\<rparr>"
  have post: "post_photos (Some c) (Some fl) now s = ((201, Photos ?new), ?s)"
    using h by (intro post_photos_created) simp_all
  have rd: "fst (readDb ?s) = Inr (d\<lparr>photos := photos d @ ?new\<rparr>)"
    by (rule readDb_written)
  have none: "\<forall>p \<in> set ?new. clientId p = None"
    using h by (auto simp: new_photo_def)
  have kept: "\<exists>d'. fst (readDb (snd (serve (map DeleteClient ids) ?s))) = Inr d'
                 \<and> set ?new \<subseteq> set (photos d')" for ids
  proof -
    from serve_deletes_keep_unowned [OF rd, of ids]
    obtain d' where d': "fst (readDb (snd (serve (map DeleteClient ids) ?s))) = Inr d'"
      "filter (\<lambda>p. clientId p = None) (photos d') =
         filter (\<lambda>p. clientId p = None) (photos (d\<lparr>photos := photos d @ ?new\<rparr>))"
      by blast
    have "set ?new \<subseteq> set (photos d')"
    proof
      fix p assume p: "p \<in> set ?new"
      with none have "p \<in> set (filter (\<lambda>p. clientId p = None)
          (photos (d\<lparr>photos := photos d @ ?new\<rparr>)))"
        by simp
      with d'(2) have "p \<in> set (filter (\<lambda>p. clientId p = None) (photos d'))" by simp
      then show "p \<in> set (photos d')" by simp
    qed
    with d'(1) show ?thesis by blast
  qed
  from none have none': "\<forall>p \<in> set ?new. clientId p = None \<and> (\<forall>k. \<not> strict_eq (clientId p) (Some k))"
    by simp
  have len: "length ?new = length fl" by simp
  show "\<exists>new s'. post_photos (Some c) (Some fl) now s = ((201, Photos new), s')
           \<and> fst (readDb s') = Inr (d\<lparr>photos := photos d @ new\<rparr>)
           \<and> length new = length fl
           \<and> (\<forall>p \<in> set new. clientId p = None \<and> (\<forall>k. \<not> strict_eq (clientId p) (Some k)))
           \<and> (\<forall>ids. \<exists>d'. fst (readDb (snd (serve (map DeleteClient ids) s'))) = Inr d'
                 \<and> set new \<subseteq> set (photos d'))"
    using post rd len none' kept by blast
qed


theorem C10_upload_unparsed_client_id_witness:
  "parseInt ''abc'' = None
   \<and> fst (readDb (disk album)) = Inr album
   \<and> fst (fst (post_photos None (Some [jpg ''x.jpg'']) noon (disk album))) = 400
   \<and> (\<exists>new s'.
         post_photos (Some ''abc'') (Some [jpg ''x.jpg'']) noon (disk album) =
           ((201, Photos new), s')
       \<and> length new = 1
       \<and> clientId (new ! 0) = None
       \<and> (\<exists>d'. fst (readDb (snd (serve (map DeleteClient [''1'', ''2'', ''abc'']) s'))) = Inr d'
              \<and> new ! 0 \<in> set (photos d')))"
proof -
  let ?fl = "[jpg ''x.jpg'']"
  note inst = C10_upload_unparsed_client_id
    [of None "Some ?fl" noon "disk album" "''abc''" ?fl album]
  have p: "parseInt ''abc'' = None" by code_simp
  have r: "fst (readDb (disk album)) = Inr album" by (simp add: readDb_result disk_def)
  have w: "writable (disk album)" by (simp add: disk_def)
  have a: "fst (fst (post_photos None (Some ?fl) noon (disk album))) = 400"
    using inst by simp
  from inst p r w obtain new s' where n:
    "post_photos (Some ''abc'') (Some ?fl) noon (disk album) = ((201, Photos new), s')"
    "length new = length ?fl"
    "\<forall>q \<in> set new. clientId q = None \<and> (\<forall>k. \<not> strict_eq (clientId q) (Some k))"
    "\<forall>ids. \<exists>d'. fst (readDb (snd (serve (map DeleteClient ids) s'))) = Inr d'
         \<and> set new \<subseteq> set (photos d')"
    by auto
  have l: "length new = 1" using n(2) by simp
  then have m: "new ! 0 \<in> set new" by simp
  with n(3) have c: "clientId (new ! 0) = None" by blast
  from n(4) obtain d' where
    "fst (readDb (snd (serve (map DeleteClient [''1'', ''2'', ''abc'']) s'))) = Inr d'"
    "set new \<subseteq> set (photos d')"
    by blast
  with m have "\<exists>d'. fst (readDb (snd (serve (map DeleteClient [''1'', ''2'', ''abc'']) s'))) = Inr d'
      \<and> new ! 0 \<in> set (photos d')"
    by blast
  with n(1) l c p r a show ?thesis by blast
qed

section \<open>Ids stay unique\<close>

lemma photo_id_toggle [simp]: "photo_id (toggle p) = photo_id p"
  by (simp add: toggle_def)

lemma delete_photos_done:
  assumes "fst (readDb s) = Inr d" "writable s"
    "findIndex (\<lambda>p. Some (photo_id p) = parseInt ident) (photos d) = Some i"
  shows "delete_photos ident s =
     ((200, Message ''Photo deleted''),
      (unlink_photo (photos d ! i) s)\<lparr>db := Stored (d\<lparr>photos := splice1 i (photos d)\<rparr>)\<rparr>)"
  using assms by (simp add: delete_photos_def readDb_Inr writeDb_ok Let_def)

lemma put_favorite_done:
  assumes "fst (readDb s) = Inr d" "writable s"
    "find (\<lambda>p. Some (photo_id p) = parseInt ident) (photos d) = Some ph"
  shows "put_favorite ident s =
     ((200, APhoto (toggle ph)),
      s\<lparr>db := Stored (d\<lparr>photos :=
          assign_found (\<lambda>p. Some (photo_id p) = parseInt ident) toggle (photos d)\<rparr>)\<rparr>)"
  using assms by (simp add: put_favorite_def readDb_Inr writeDb_ok Let_def)

lemma bounded_ids_iff:
  "bounded_ids B d \<longleftrightarrow>
     (\<forall>c \<in> set (clients d). - (2 ^ 53) \<le> client_id c \<and> client_id c \<le> B)
     \<and> (\<forall>p \<in> set (photos d). - (2 ^ 53) \<le> photo_id p \<and> photo_id p \<le> B)"
  by (auto simp: bounded_ids_def)

lemma bounded_ids_mono:
  assumes "bounded_ids B d" "B \<le> B'"
  shows "bounded_ids B' d"
  unfolding bounded_ids_def
proof (intro ballI conjI)
  fix n
  assume "n \<in> set (map client_id (clients d)) \<union> set (map photo_id (photos d))"
  with assms(1) have n: "- (2 ^ 53) \<le> n \<and> n \<le> B" unfolding bounded_ids_def by blast
  from n show "- (2 ^ 53) \<le> n" by simp
  from n assms(2) show "n \<le> B'" by simp
qed

lemma set_map_splice1: "set (map f (splice1 i xs)) \<subseteq> set (map f xs)"
proof -
  have "set (take i xs) \<subseteq> set xs" by (rule set_take_subset)
  moreover have "set (drop (Suc i) xs) \<subseteq> set xs" by (rule set_drop_subset)
  ultimately show ?thesis by (auto simp: splice1_def)
qed

lemma new_ids:
  assumes "- (2 ^ 53) \<le> m" "m + int (length fl) \<le> 2 ^ 53"
  shows "map photo_id (map (new_photo m c now) (enumerate 0 fl)) =
     map (\<lambda>i. m + int i + 1) [0..<length fl]"
  by (rule nth_equalityI) (simp_all add: new_photo_nth new_photo_id_exact [OF assms])

lemma distinct_new_ids: "distinct (map (\<lambda>i. m + int i + 1) [0..<n])"
  by (simp add: distinct_map inj_on_def)

lemma post_clients_unique:
  assumes "fst (readDb s) = Inr d" "unique_ids d" "bounded_ids B d" "0 \<le> B" "B + 1 \<le> 2 ^ 53"
  shows "\<exists>d'. fst (readDb (snd (post_clients name e p s))) = Inr d' \<and> unique_ids d'
     \<and> bounded_ids (B + 1) d'"
proof (cases "truthy name \<and> writable s")
  case True
  let ?c = "\<lparr>client_id = new_client_id d, client_name = name, email = e, phone = p\<rparr>"
  have small: "\<forall>c \<in> set (clients d). - (2 ^ 53) \<le> client_id c \<and> client_id c < 2 ^ 53"
  proof
    fix c assume "c \<in> set (clients d)"
    with assms(3) have "- (2 ^ 53) \<le> client_id c \<and> client_id c \<le> B"
      unfolding bounded_ids_iff by blast
    with assms(5) show "- (2 ^ 53) \<le> client_id c \<and> client_id c < 2 ^ 53" by simp
  qed
  note nid = new_client_id_exact [OF small]
  have fresh: "new_client_id d \<notin> set (map client_id (clients d))"
  proof
    assume "new_client_id d \<in> set (map client_id (clients d))"
    then have "new_client_id d \<le> Max (set (map client_id (clients d)))"
      and "clients d \<noteq> []" by auto
    then show False by (simp add: nid)
  qed
  have range: "- (2 ^ 53) \<le> new_client_id d \<and> new_client_id d \<le> B + 1"
  proof (cases "clients d = []")
    case True
    then show ?thesis using assms(4) by (simp add: nid)
  next
    case False
    from Max_client_id [OF False] obtain c where "c \<in> set (clients d)"
      "client_id c = Max (set (map client_id (clients d)))" by blast
    with assms(3) have "- (2 ^ 53) \<le> Max (set (map client_id (clients d)))"
      "Max (set (map client_id (clients d))) \<le> B"
      by (force simp: bounded_ids_def)+
    with False show ?thesis by (simp add: nid)
  qed
  have "unique_ids (d\<lparr>clients := clients d @ [?c]\<rparr>)"
    using assms(2) fresh by (simp add: unique_ids_def)
  moreover have "bounded_ids (B + 1) (d\<lparr>clients := clients d @ [?c]\<rparr>)"
    using bounded_ids_mono [OF assms(3), of "B + 1"] range
    by (auto simp: bounded_ids_def)
  ultimately show ?thesis
    using True assms(1) by (simp add: post_clients_created readDb_written)
next
  case False
  have "readDb s = (Inr d, s)" by (rule readDb_Inr [OF assms(1)])
  then have "snd (post_clients name e p s) = s"
    using False by (auto simp: post_clients_def Let_def writeDb_def)
  then show ?thesis using assms(1,2) bounded_ids_mono [OF assms(3), of "B + 1"] by simp
qed

lemma delete_clients_unique:
  assumes "fst (readDb s) = Inr d" "unique_ids d" "bounded_ids B d"
  shows "\<exists>d'. fst (readDb (snd (delete_clients ident s))) = Inr d' \<and> unique_ids d'
     \<and> bounded_ids B d'"
proof (cases "findIndex (\<lambda>c. Some (client_id c) = parseInt ident) (clients d)")
  case None
  then show ?thesis using assms by (simp add: delete_clients_missing)
next
  case (Some i)
  show ?thesis
  proof (cases "writable s")
    case True
    let ?d = "\<lparr>clients = splice1 i (clients d),
        photos = filter (\<lambda>p. \<not> strict_eq (clientId p) (parseInt ident)) (photos d)\<rparr>"
    have "unique_ids ?d"
      using assms(2) by (simp add: unique_ids_def distinct_map_splice1 distinct_map_filter)
    moreover have "bounded_ids B ?d"
      using assms(3) set_map_splice1 [of client_id i "clients d"]
      by (auto simp: bounded_ids_def)
    ultimately show ?thesis
      using delete_clients_done [OF assms(1) True Some] by (simp add: readDb_written)
  next
    case False
    have "readDb s = (Inr d, s)" by (rule readDb_Inr [OF assms(1)])
    then have "db (snd (delete_clients ident s)) = db s"
      using Some False by (simp add: delete_clients_def Let_def writeDb_def)
    then have "fst (readDb (snd (delete_clients ident s))) = Inr d"
      using readDb_db [of "snd (delete_clients ident s)" s] assms(1) by simp
    then show ?thesis using assms(2,3) by simp
  qed
qed

lemma post_photos_unique:
  assumes "fst (readDb s) = Inr d" "unique_ids d" "bounded_ids B d" "0 \<le> B"
    "B + int (records_requested (UploadPhotos cid files now)) \<le> 2 ^ 53"
  shows "\<exists>d'. fst (readDb (snd (post_photos cid files now s))) = Inr d' \<and> unique_ids d'
     \<and> bounded_ids (B + int (records_requested (UploadPhotos cid files now))) d'"
proof (cases "cid = None \<or> cid = Some [] \<or> files = None \<or> files = Some []")
  case True
  then show ?thesis
    using assms(1,2)
      bounded_ids_mono [OF assms(3), of "B + int (records_requested (UploadPhotos cid files now))"]
    by (simp add: post_photos_rejected)
next
  case False
  then obtain c fl where cf: "cid = Some c" "c \<noteq> []" "files = Some fl" "fl \<noteq> []" by auto
  have room: "B + int (length fl) \<le> 2 ^ 53" using assms(5) cf(3) by simp
  show ?thesis
  proof (cases "writable s")
    case True
    let ?new = "map (new_photo (max_photo_id d) c now) (enumerate 0 fl)"
    have old: "- (2 ^ 53) \<le> photo_id q \<and> photo_id q \<le> B" if "q \<in> set (photos d)" for q
      using assms(3) that by (force simp: bounded_ids_def)
    have top: "photo_id q \<le> max_photo_id d" if "q \<in> set (photos d)" for q
    proof -
      have "photo_id q \<le> Max (set (map photo_id (photos d)))"
        using that by (intro Max_ge) auto
      moreover have "photos d \<noteq> []" using that by auto
      ultimately show ?thesis by (simp add: max_photo_id_def)
    qed
    have low: "- (2 ^ 53) \<le> max_photo_id d"
      using old by (intro max_photo_id_low) blast
    have mB: "max_photo_id d \<le> B"
    proof (cases "photos d = []")
      case True
      then show ?thesis using assms(4) by (simp add: max_photo_id_def)
    next
      case False
      then have "Max (set (map photo_id (photos d))) \<in> set (map photo_id (photos d))"
        by (intro Max_in) auto
      then obtain q where "q \<in> set (photos d)" "photo_id q = Max (set (map photo_id (photos d)))"
        by auto
      with old [of q] False show ?thesis by (simp add: max_photo_id_def)
    qed
    have high: "max_photo_id d + int (length fl) \<le> 2 ^ 53" using mB room by simp
    note ids = new_ids [OF low high, of c now]
    have disj: "set (map photo_id (photos d)) \<inter> set (map photo_id ?new) = {}"
      unfolding ids using top by fastforce
    have "distinct (map photo_id ?new)"
      unfolding ids by (rule distinct_new_ids)
    with disj assms(2) have u: "unique_ids (d\<lparr>photos := photos d @ ?new\<rparr>)"
      by (simp add: unique_ids_def)
    have newb: "- (2 ^ 53) \<le> n \<and> n \<le> B + int (length fl)" if "n \<in> set (map photo_id ?new)" for n
      using that low mB unfolding ids by auto
    have "bounded_ids (B + int (length fl)) (d\<lparr>photos := photos d @ ?new\<rparr>)"
      using bounded_ids_mono [OF assms(3), of "B + int (length fl)"] newb
      unfolding bounded_ids_def by auto
    with u show ?thesis
      using post_photos_created [OF cf(2,4) assms(1) True] cf by (simp add: readDb_written)
  next
    case False
    have "readDb (upload_array (Some fl) s) = (Inr d, upload_array (Some fl) s)"
      by (rule readDb_Inr) (simp add: assms(1))
    then have "snd (post_photos cid files now s) = upload_array (Some fl) s"
      using cf False by (simp add: post_photos_def Let_def writeDb_def)
    then show ?thesis
      using assms(1,2) cf(3) bounded_ids_mono [OF assms(3), of "B + int (length fl)"] by simp
  qed
qed

lemma delete_photos_unique:
  assumes "fst (readDb s) = Inr d" "unique_ids d" "bounded_ids B d"
  shows "\<exists>d'. fst (readDb (snd (delete_photos ident s))) = Inr d' \<and> unique_ids d'
     \<and> bounded_ids B d'"
proof (cases "findIndex (\<lambda>p. Some (photo_id p) = parseInt ident) (photos d)")
  case None
  then show ?thesis using assms by (simp add: delete_photos_missing)
next
  case (Some i)
  show ?thesis
  proof (cases "writable s")
    case True
    have "unique_ids (d\<lparr>photos := splice1 i (photos d)\<rparr>)"
      using assms(2) by (simp add: unique_ids_def distinct_map_splice1)
    moreover have "bounded_ids B (d\<lparr>photos := splice1 i (photos d)\<rparr>)"
      using assms(3) set_map_splice1 [of photo_id i "photos d"]
      by (auto simp: bounded_ids_def)
    ultimately show ?thesis
      using delete_photos_done [OF assms(1) True Some] by (simp add: readDb_written)
  next
    case False
    have "readDb s = (Inr d, s)" by (rule readDb_Inr [OF assms(1)])
    then have "db (snd (delete_photos ident s)) = db s"
      using Some False by (simp add: delete_photos_def Let_def writeDb_def)
    then have "fst (readDb (snd (delete_photos ident s))) = Inr d"
      using readDb_db [of "snd (delete_photos ident s)" s] assms(1) by simp
    then show ?thesis using assms(2,3) by simp
  qed
qed

lemma put_favorite_unique:
  assumes "fst (readDb s) = Inr d" "unique_ids d" "bounded_ids B d"
  shows "\<exists>d'. fst (readDb (snd (put_favorite ident s))) = Inr d' \<and> unique_ids d'
     \<and> bounded_ids B d'"
proof (cases "find (\<lambda>p. Some (photo_id p) = parseInt ident) (photos d)")
  case None
  then show ?thesis using assms by (simp add: put_favorite_missing)
next
  case (Some ph)
  show ?thesis
  proof (cases "writable s")
    case True
    let ?d = "d\<lparr>photos :=
          assign_found (\<lambda>p. Some (photo_id p) = parseInt ident) toggle (photos d)\<rparr>"
    have same: "map photo_id (photos ?d) = map photo_id (photos d)"
      by (simp add: map_assign_found)
    have "unique_ids ?d"
      using assms(2) same by (simp add: unique_ids_def)
    moreover have "bounded_ids B ?d"
      using assms(3) unfolding bounded_ids_def same by simp
    ultimately show ?thesis
      using put_favorite_done [OF assms(1) True Some] by (simp add: readDb_written)
  next
    case False
    have "readDb s = (Inr d, s)" by (rule readDb_Inr [OF assms(1)])
    then have "snd (put_favorite ident s) = s"
      using Some False by (simp add: put_favorite_def Let_def writeDb_def)
    then show ?thesis using assms by simp
  qed
qed

lemma handle_unique:
  assumes "fst (readDb s) = Inr d" "unique_ids d" "bounded_ids B d" "0 \<le> B"
    "B + int (records_requested op) \<le> 2 ^ 53"
  shows "\<exists>d'. fst (readDb (snd (handle op s))) = Inr d' \<and> unique_ids d'
     \<and> bounded_ids (B + int (records_requested op)) d'"
proof (cases op)
  case GetData
  have "snd (get_data s) = s"
    by (simp add: get_data_def readDb_Inr [OF assms(1)])
  with GetData assms show ?thesis by simp
next
  case (CreateClient n e p)
  then show ?thesis using post_clients_unique [OF assms(1-4)] assms(5) by simp
next
  case (DeleteClient i)
  then show ?thesis using delete_clients_unique [OF assms(1-3)] by simp
next
  case (UploadPhotos c fl now)
  then show ?thesis using post_photos_unique [OF assms(1-4)] assms(5) by simp
next
  case (DeletePhoto i)
  then show ?thesis using delete_photos_unique [OF assms(1-3)] by simp
next
  case (ToggleFavorite i)
  then show ?thesis using put_favorite_unique [OF assms(1-3)] by simp
qed

text \<open>
  Claim C5, as the code has it. New ids are computed in double arithmetic, which is exact
  as long as the results are at most \<open>2^53\<close>. Let the loaded document have pairwise
  distinct client ids and pairwise distinct photo ids, all between \<open>-2^53\<close> and a bound
  \<open>B \<ge> 0\<close>, and let the requests ask for at most \<open>2^53 - B\<close> new records in all (one per
  create-client, one per uploaded file). Then after these requests, served one after the
  other (listing, creating and deleting clients, uploading and deleting photos, toggling
  favorites, whether they succeed or fail), the stored document loads again and its client
  ids are pairwise distinct and its photo ids are pairwise distinct.
\<close>

theorem C5_unique_ids_preserved:
  assumes "fst (readDb s) = Inr d" and "unique_ids d"
    and "bounded_ids B d" and "0 \<le> B"
    and "B + int (sum_list (map records_requested ops)) \<le> 2 ^ 53"
  shows "\<exists>d'. fst (readDb (snd (serve ops s))) = Inr d' \<and> unique_ids d'"
  using assms
proof (induction ops arbitrary: s d B)
  case Nil
  then show ?case by simp
next
  case (Cons op ops)
  let ?g = "int (records_requested op)"
  have room: "B + ?g \<le> 2 ^ 53" using Cons.prems(5) by simp
  from handle_unique [OF Cons.prems(1-4) room]
  obtain d1 where d1: "fst (readDb (snd (handle op s))) = Inr d1" "unique_ids d1"
    "bounded_ids (B + ?g) d1"
    by blast
  have pos: "0 \<le> B + ?g" using Cons.prems(4) by simp
  have rest: "B + ?g + int (sum_list (map records_requested ops)) \<le> 2 ^ 53"
    using Cons.prems(5) by simp
  from Cons.IH [OF d1 pos rest] show ?case by (simp add: split_beta)
qed

theorem C5_unique_ids_preserved_witness:
  "fst (readDb (disk album)) = Inr album
   \<and> unique_ids album
   \<and> bounded_ids 3 album
   \<and> (\<exists>d'. fst (readDb (snd (serve
          [CreateClient (JStr ''Cleo'') JUndefined JUndefined,
           UploadPhotos (Some ''3'') (Some [jpg ''x.jpg'', jpg ''y.jpg'']) noon,
           DeleteClient ''1'', ToggleFavorite ''2'', DeletePhoto ''4'', GetData]
          (disk album)))) = Inr d'
        \<and> unique_ids d')"
proof -
  let ?ops = "[CreateClient (JStr ''Cleo'') JUndefined JUndefined,
           UploadPhotos (Some ''3'') (Some [jpg ''x.jpg'', jpg ''y.jpg'']) noon,
           DeleteClient ''1'', ToggleFavorite ''2'', DeletePhoto ''4'', GetData]"
  have r: "fst (readDb (disk album)) = Inr album" by (simp add: readDb_result disk_def)
  have u: "unique_ids album"
    by (simp add: unique_ids_def album_def ann_def bob_def picture_def)
  have b: "bounded_ids 3 album"
    by (simp add: bounded_ids_def album_def ann_def bob_def picture_def)
  have z: "(0::int) \<le> 3" by simp
  have g: "3 + int (sum_list (map records_requested ?ops)) \<le> 2 ^ 53" by simp
  from C5_unique_ids_preserved [OF r u b z g] r u b show ?thesis by blast
qed

text \<open>
  Claim C5 says that uniqueness is kept from every document with unique ids. In the
  document whose only client has id \<open>2^53 = 9007199254740992\<close> the ids are unique; the
  next created client gets \<open>2^53\<close> again (\<open>2^53 + 1\<close> rounds back), and the stored
  document has two clients under one id.
\<close>

theorem C5_counterexample:
  "unique_ids \<lparr>clients = [veteran], photos = []\<rparr>
   \<and> fst (readDb (snd (serve [CreateClient (JStr ''Zoe'') JUndefined JUndefined]
             (disk \<lparr>clients = [veteran], photos = []\<rparr>)))) =
       Inr \<lparr>clients = [veteran,
                        \<lparr>client_id = 9007199254740992, client_name = JStr ''Zoe'',
                         email = JUndefined, phone = JUndefined\<rparr>],
            photos = []\<rparr>
   \<and> \<not> unique_ids
         \<lparr>clients = [veteran,
                     \<lparr>client_id = 9007199254740992, client_name = JStr ''Zoe'',
                      email = JUndefined, phone = JUndefined\<rparr>],
          photos = []\<rparr>"
proof -
  let ?d = "\<lparr>clients = [veteran], photos = []\<rparr>"
  have r: "fst (readDb (disk ?d)) = Inr ?d" by (simp add: readDb_result disk_def)
  have w: "writable (disk ?d)" by (simp add: disk_def)
  have n: "new_client_id ?d = 9007199254740992"
    by (simp add: new_client_id_def veteran_def js_add_tie)
  have a: "unique_ids ?d" by (simp add: unique_ids_def)
  have b: "fst (readDb (snd (serve [CreateClient (JStr ''Zoe'') JUndefined JUndefined]
             (disk ?d)))) =
       Inr \<lparr>clients = [veteran,
                        \<lparr>client_id = 9007199254740992, client_name = JStr ''Zoe'',
                         email = JUndefined, phone = JUndefined\<rparr>],
            photos = []\<rparr>"
    by (simp add: post_clients_created [OF _ r w] n readDb_written)
  have c: "\<not> unique_ids
         \<lparr>clients = [veteran,
                     \<lparr>client_id = 9007199254740992, client_name = JStr ''Zoe'',
                      email = JUndefined, phone = JUndefined\<rparr>],
          photos = []\<rparr>"
    by (simp add: unique_ids_def veteran_def)
  from a b c show ?thesis by blast
qed

section \<open>Toggling the favorite flag\<close>

lemma put_favorite_status:
  assumes "fst (fst (put_favorite ident s)) = 200"
  shows "\<exists>d ph. fst (readDb s) = Inr d \<and> writable s
     \<and> find (\<lambda>p. Some (photo_id p) = parseInt ident) (photos d) = Some ph"
proof (cases "fst (readDb s)")
  case (Inl err)
  then show ?thesis using assms by (simp add: put_favorite_def readDb_Inl Let_def)
next
  case (Inr d)
  show ?thesis
  proof (cases "find (\<lambda>p. Some (photo_id p) = parseInt ident) (photos d)")
    case None
    then show ?thesis using assms Inr by (simp add: put_favorite_missing)
  next
    case (Some ph)
    have "writable s"
    proof (rule ccontr)
      assume "\<not> writable s"
      then show False
        using assms Some by (simp add: put_favorite_def readDb_Inr [OF Inr] Let_def writeDb_def)
    qed
    with Inr Some show ?thesis by simp
  qed
qed

lemma put_favorite_toggles:
  assumes "fst (readDb s) = Inr d" "writable s" "j < length (photos d)"
    "Some (photo_id (photos d ! j)) = parseInt ident"
    "\<forall>k<j. Some (photo_id (photos d ! k)) \<noteq> parseInt ident"
  shows "put_favorite ident s =
     ((200, APhoto (toggle (photos d ! j))),
      s\<lparr>db := Stored (d\<lparr>photos := (photos d)[j := toggle (photos d ! j)]\<rparr>)\<rparr>)"
proof -
  let ?P = "\<lambda>p. Some (photo_id p) = parseInt ident"
  have "find ?P (photos d) = Some (photos d ! j)"
    using assms(3,4,5) by (auto simp: find_Some_iff)
  moreover have "assign_found ?P toggle (photos d) = (photos d)[j := toggle (photos d ! j)]"
    using assms(3,4,5) by (intro assign_found_first) auto
  ultimately show ?thesis
    using put_favorite_done [OF assms(1,2)] by simp
qed

text \<open>
  Claim C9, as the code has it. \<^verbatim>\<open>find\<close> stops at the first photo with the requested
  id, so the claim holds for a photo that no earlier photo of the list shares its id
  with (every photo, when photo ids are pairwise distinct). For the photo at position \<open>i\<close>
  with that property, when \<^verbatim>\<open>PUT /api/photos/:id/favorite\<close> on its id answers 200, the
  saved document differs from the loaded one in that photo only, and there in the
  \<open>favorite\<close> field only: its id, \<open>clientId\<close>, name, url, size and upload time are the
  same, every other photo is the same and in the same place, and the clients list is the
  same.
\<close>

theorem C9_toggle_changes_favorite_only:
  assumes "fst (readDb s) = Inr d"
    and "i < length (photos d)"
    and "\<forall>k<i. photo_id (photos d ! k) \<noteq> photo_id (photos d ! i)"
    and "parseInt ident = Some (photo_id (photos d ! i))"
    and "fst (fst (put_favorite ident s)) = 200"
  shows "\<exists>d'. fst (readDb (snd (put_favorite ident s))) = Inr d'
     \<and> clients d' = clients d
     \<and> length (photos d') = length (photos d)
     \<and> (\<forall>k < length (photos d). k \<noteq> i \<longrightarrow> photos d' ! k = photos d ! k)
     \<and> photos d' ! i = (photos d ! i)\<lparr>favorite := JBool (\<not> truthy (favorite (photos d ! i)))\<rparr>
     \<and> photo_id (photos d' ! i) = photo_id (photos d ! i)
     \<and> clientId (photos d' ! i) = clientId (photos d ! i)
     \<and> photo_name (photos d' ! i) = photo_name (photos d ! i)
     \<and> url (photos d' ! i) = url (photos d ! i)
     \<and> photo_size (photos d' ! i) = photo_size (photos d ! i)
     \<and> uploaded (photos d' ! i) = uploaded (photos d ! i)"
proof -
  from put_favorite_status [OF assms(5)] have w: "writable s" by blast
  have here: "Some (photo_id (photos d ! i)) = parseInt ident" using assms(4) by simp
  have first: "\<forall>k<i. Some (photo_id (photos d ! k)) \<noteq> parseInt ident"
    using assms(3,4) by simp
  let ?d = "d\<lparr>photos := (photos d)[i := toggle (photos d ! i)]\<rparr>"
  have "fst (readDb (snd (put_favorite ident s))) = Inr ?d"
    by (simp add: put_favorite_toggles [OF assms(1) w assms(2) here first] readDb_written)
  with assms(2) show ?thesis
    by (intro exI [of _ ?d]) (simp add: toggle_def)
qed

theorem C9_toggle_changes_favorite_only_witness:
  "fst (readDb (disk album)) = Inr album
   \<and> parseInt ''2'' = Some (photo_id (photos album ! 1))
   \<and> fst (fst (put_favorite ''2'' (disk album))) = 200
   \<and> (\<exists>d'. fst (readDb (snd (put_favorite ''2'' (disk album)))) = Inr d'
        \<and> clients d' = clients album
        \<and> length (photos d') = 3
        \<and> photos d' ! 0 = photos album ! 0
        \<and> photos d' ! 2 = photos album ! 2
        \<and> photos d' ! 1 = picture 2 (Some 2) ''b.jpg'' (JBool True))"
proof -
  have r: "fst (readDb (disk album)) = Inr album" by (simp add: readDb_result disk_def)
  have w: "writable (disk album)" by (simp add: disk_def)
  have p2: "parseInt ''2'' = Some 2" by code_simp
  then have p: "parseInt ''2'' = Some (photo_id (photos album ! 1))"
    by (simp add: album_def picture_def)
  have l: "length (photos album) = 3" by (simp add: album_def)
  have i: "1 < length (photos album)" using l by simp
  have no: "\<forall>k<1. photo_id (photos album ! k) \<noteq> photo_id (photos album ! 1)"
    by (simp add: album_def picture_def)
  have "find (\<lambda>q. Some (photo_id q) = parseInt ''2'') (photos album) =
      Some (picture 2 (Some 2) ''b.jpg'' (JBool False))"
    by (simp add: p2 album_def picture_def)
  from put_favorite_done [OF r w this]
  have ok: "fst (fst (put_favorite ''2'' (disk album))) = 200" by simp
  have "\<exists>d'. fst (readDb (snd (put_favorite ''2'' (disk album)))) = Inr d'
        \<and> clients d' = clients album
        \<and> length (photos d') = 3
        \<and> photos d' ! 0 = photos album ! 0
        \<and> photos d' ! 2 = photos album ! 2
        \<and> photos d' ! 1 = picture 2 (Some 2) ''b.jpg'' (JBool True)"
    using C9_toggle_changes_favorite_only [OF r i no p ok]
  proof (elim exE conjE)
    fix d'
    assume a: "fst (readDb (snd (put_favorite ''2'' (disk album)))) = Inr d'"
      and b: "clients d' = clients album"
      and c: "length (photos d') = length (photos album)"
      and e: "\<forall>k < length (photos album). k \<noteq> 1 \<longrightarrow> photos d' ! k = photos album ! k"
      and f: "photos d' ! 1 =
        (photos album ! 1)\<lparr>favorite := JBool (\<not> truthy (favorite (photos album ! 1)))\<rparr>"
    from e l have e0: "photos d' ! 0 = photos album ! 0" by simp
    from e l have e2: "photos d' ! 2 = photos album ! 2" by simp
    from f have f': "photos d' ! 1 = picture 2 (Some 2) ''b.jpg'' (JBool True)"
      by (simp add: album_def picture_def)
    from c l have c': "length (photos d') = 3" by simp
    from a b c' e0 e2 f' show ?thesis by blast
  qed
  with r p ok show ?thesis by blast
qed

text \<open>
  Claim C9, as stated, fails when an earlier photo shares the id: the second of the twins
  is in the document, and the toggle by its id answers 200, flips the first of the twins
  and leaves the second as it was.
\<close>

theorem C9_counterexample:
  "photos twins ! 1 = picture 1 (Some 1) ''b.jpg'' (JBool False)
   \<and> parseInt ''1'' = Some (photo_id (photos twins ! 1))
   \<and> put_favorite ''1'' (disk twins) =
       ((200, APhoto (picture 1 (Some 1) ''a.jpg'' (JBool True))),
        disk \<lparr>clients = [ann],
              photos = [picture 1 (Some 1) ''a.jpg'' (JBool True),
                        picture 1 (Some 1) ''b.jpg'' (JBool False)]\<rparr>)"
proof -
  have p: "parseInt ''1'' = Some 1" by code_simp
  have r: "fst (readDb (disk twins)) = Inr twins" by (simp add: readDb_result disk_def)
  have w: "writable (disk twins)" by (simp add: disk_def)
  have f: "find (\<lambda>q. Some (photo_id q) = parseInt ''1'') (photos twins) =
      Some (picture 1 (Some 1) ''a.jpg'' (JBool False))"
    by (simp add: p twins_def picture_def)
  have "put_favorite ''1'' (disk twins) =
       ((200, APhoto (picture 1 (Some 1) ''a.jpg'' (JBool True))),
        disk \<lparr>clients = [ann],
              photos = [picture 1 (Some 1) ''a.jpg'' (JBool True),
                        picture 1 (Some 1) ''b.jpg'' (JBool False)]\<rparr>)"
    unfolding put_favorite_done [OF r w f]
    by (simp add: p twins_def picture_def toggle_def disk_def)
  then show ?thesis using p by (simp add: twins_def picture_def)
qed

lemma toggle_toggle: "favorite p = JBool b \<Longrightarrow> toggle (toggle p) = p"
  by (simp add: toggle_def)

lemma favorite_toggle_toggle:
  "favorite p = JBool b \<Longrightarrow> favorite (toggle (toggle p)) = JBool b"
  by (simp add: toggle_def)

text \<open>
  Claim C6. Take a photo of the loaded document (position \<open>i\<close>) whose \<open>favorite\<close> is a
  boolean \<open>b\<close>, and toggle by its id twice, on a disk that takes the writes. Both requests
  answer 200, and after the second the photo at position \<open>i\<close> has \<open>favorite = b\<close> again. The
  first response is the photo that was updated, as saved, with its \<open>favorite\<close> negated.
  When no earlier photo has the same id (as is the case when photo ids are pairwise
  distinct), the updated photo is the given one: the first response is that photo with
  \<open>favorite = \<not> b\<close>, the second is the photo as it was, and the document is back to what
  it was.
\<close>

theorem C6_toggle_twice:
  assumes "fst (readDb s) = Inr d" and "writable s"
    and "i < length (photos d)"
    and "favorite (photos d ! i) = JBool b"
    and "parseInt ident = Some (photo_id (photos d ! i))"
  shows "\<exists>q1 s1 d1 q2 s2 d2.
       put_favorite ident s = ((200, APhoto q1), s1) \<and> fst (readDb s1) = Inr d1
     \<and> put_favorite ident s1 = ((200, APhoto q2), s2) \<and> fst (readDb s2) = Inr d2
     \<and> favorite (photos d2 ! i) = JBool b
     \<and> (\<exists>j. j < length (photos d)
           \<and> photo_id (photos d ! j) = photo_id (photos d ! i)
           \<and> q1 = (photos d ! j)\<lparr>favorite := JBool (\<not> truthy (favorite (photos d ! j)))\<rparr>
           \<and> photos d1 ! j = q1)
     \<and> ((\<forall>k<i. photo_id (photos d ! k) \<noteq> photo_id (photos d ! i)) \<longrightarrow>
           q1 = (photos d ! i)\<lparr>favorite := JBool (\<not> b)\<rparr> \<and> photos d1 ! i = q1
         \<and> q2 = photos d ! i \<and> d2 = d)"
proof -
  let ?P = "\<lambda>p. Some (photo_id p) = parseInt ident"
  have Pi: "?P (photos d ! i)" using assms(5) by simp
  moreover have "photos d ! i \<in> set (photos d)" using assms(3) by simp
  ultimately have "find ?P (photos d) \<noteq> None"
    unfolding find_None_iff by blast
  then obtain j where j: "j < length (photos d)" "?P (photos d ! j)"
    "\<forall>k<j. \<not> ?P (photos d ! k)"
    by (auto simp: find_Some_iff)
  have ji: "j \<le> i" using j(3) Pi by (meson not_le_imp_less)
  let ?p = "photos d ! j"
  let ?d1 = "d\<lparr>photos := (photos d)[j := toggle ?p]\<rparr>"
  let ?s1 = "s\<lparr>db := Stored ?d1\<rparr>"
  have t1: "put_favorite ident s = ((200, APhoto (toggle ?p)), ?s1)"
    using j by (intro put_favorite_toggles [OF assms(1,2)]) auto
  have r1: "fst (readDb ?s1) = Inr ?d1" by (rule readDb_written)
  have w1: "writable ?s1" using assms(2) by simp
  have j1: "j < length (photos ?d1)" using j(1) by simp
  have P1: "Some (photo_id (photos ?d1 ! j)) = parseInt ident" using j(1,2) by simp
  have F1: "\<forall>k<j. Some (photo_id (photos ?d1 ! k)) \<noteq> parseInt ident" using j(3) by simp
  let ?d2 = "?d1\<lparr>photos := (photos ?d1)[j := toggle (photos ?d1 ! j)]\<rparr>"
  let ?s2 = "?s1\<lparr>db := Stored ?d2\<rparr>"
  have t2: "put_favorite ident ?s1 = ((200, APhoto (toggle (photos ?d1 ! j))), ?s2)"
    by (rule put_favorite_toggles [OF r1 w1 j1 P1 F1])
  have r2: "fst (readDb ?s2) = Inr ?d2" by (rule readDb_written)
  have restored: "favorite (photos ?d2 ! i) = JBool b"
  proof (cases "i = j")
    case True
    then show ?thesis using j(1) assms(4) by (simp add: favorite_toggle_toggle)
  next
    case False
    then show ?thesis using assms(4) by simp
  qed
  have upd: "\<exists>j. j < length (photos d)
           \<and> photo_id (photos d ! j) = photo_id (photos d ! i)
           \<and> toggle ?p = (photos d ! j)\<lparr>favorite := JBool (\<not> truthy (favorite (photos d ! j)))\<rparr>
           \<and> photos ?d1 ! j = toggle ?p"
    using j(1,2) assms(5) by (intro exI [of _ j]) (simp add: toggle_def)
  have first: "toggle ?p = (photos d ! i)\<lparr>favorite := JBool (\<not> b)\<rparr>
      \<and> photos ?d1 ! i = toggle ?p \<and> toggle (photos ?d1 ! j) = photos d ! i \<and> ?d2 = d"
    if no: "\<forall>k<i. photo_id (photos d ! k) \<noteq> photo_id (photos d ! i)"
  proof -
    have "\<not> j < i" using no j(2) assms(5) by auto
    with ji have e: "j = i" by simp
    have tt: "toggle (toggle (photos d ! i)) = photos d ! i"
      by (rule toggle_toggle [OF assms(4)])
    have a: "toggle ?p = (photos d ! i)\<lparr>favorite := JBool (\<not> b)\<rparr>"
      using e assms(4) by (simp add: toggle_def)
    have b: "photos ?d1 ! i = toggle ?p" using e assms(3) by simp
    have c: "toggle (photos ?d1 ! j) = photos d ! i" using e assms(3) tt by simp
    have "?d2 = d" using e assms(3) tt by simp
    with a b c show ?thesis by blast
  qed
  show ?thesis
    using t1 r1 t2 r2 restored upd first
    by (intro exI [of _ "toggle ?p"] exI [of _ ?s1] exI [of _ ?d1]
        exI [of _ "toggle (photos ?d1 ! j)"] exI [of _ ?s2] exI [of _ ?d2]) blast
qed



theorem C6_toggle_twice_witness:
  "fst (readDb (disk album)) = Inr album
   \<and> favorite (photos album ! 1) = JBool False
   \<and> parseInt ''2'' = Some (photo_id (photos album ! 1))
   \<and> (\<exists>q1 s1 q2 s2.
         put_favorite ''2'' (disk album) = ((200, APhoto q1), s1)
       \<and> put_favorite ''2'' s1 = ((200, APhoto q2), s2)
       \<and> q1 = (photos album ! 1)\<lparr>favorite := JBool True\<rparr>
       \<and> q2 = photos album ! 1
       \<and> fst (readDb s2) = Inr album)"
proof -
  have r: "fst (readDb (disk album)) = Inr album" by (simp add: readDb_result disk_def)
  have w: "writable (disk album)" by (simp add: disk_def)
  have i: "1 < length (photos album)" by (simp add: album_def)
  have f: "favorite (photos album ! 1) = JBool False" by (simp add: album_def picture_def)
  have "parseInt ''2'' = Some 2" by code_simp
  then have p: "parseInt ''2'' = Some (photo_id (photos album ! 1))"
    by (simp add: album_def picture_def)
  have no: "\<forall>k<1. photo_id (photos album ! k) \<noteq> photo_id (photos album ! 1)"
    by (simp add: album_def picture_def)
  have "\<exists>q1 s1 q2 s2.
         put_favorite ''2'' (disk album) = ((200, APhoto q1), s1)
       \<and> put_favorite ''2'' s1 = ((200, APhoto q2), s2)
       \<and> q1 = (photos album ! 1)\<lparr>favorite := JBool True\<rparr>
       \<and> q2 = photos album ! 1
       \<and> fst (readDb s2) = Inr album"
    using C6_toggle_twice [OF r w i f p]
  proof (elim exE conjE)
    fix q1 s1 d1 q2 s2 d2
    assume t1: "put_favorite ''2'' (disk album) = ((200, APhoto q1), s1)"
      and t2: "put_favorite ''2'' s1 = ((200, APhoto q2), s2)"
      and r2: "fst (readDb s2) = Inr d2"
      and imp: "(\<forall>k<1. photo_id (photos album ! k) \<noteq> photo_id (photos album ! 1)) \<longrightarrow>
           q1 = (photos album ! 1)\<lparr>favorite := JBool (\<not> False)\<rparr> \<and> photos d1 ! 1 = q1
         \<and> q2 = photos album ! 1 \<and> d2 = album"
    from imp no have e: "q1 = (photos album ! 1)\<lparr>favorite := JBool (\<not> False)\<rparr>"
      "q2 = photos album ! 1" "d2 = album"
      by blast+
    from e(1) have e1: "q1 = (photos album ! 1)\<lparr>favorite := JBool True\<rparr>" by simp
    from r2 e(3) have r2': "fst (readDb s2) = Inr album" by simp
    from t1 t2 e1 e(2) r2' show ?thesis by blast
  qed
  with r f p show ?thesis by blast
qed

end
